theory Spec2Isabelle
  imports Main "HOL-Library.Multiset"
begin

section \<open>The project store of src/context/ProjectContext.tsx\<close>

text \<open>
  The store is a React provider holding five pieces of state (\<open>projects\<close>,
  \<open>currentProject\<close>, \<open>undoStack\<close>, \<open>redoStack\<close>, \<open>projectState\<close>) and the callbacks that
  update them. Every callback is modelled as a function from the store before the call to the
  store after all the state updates the call queues have been applied: callbacks run to
  completion one at a time, each one from a render that has seen the previous one's updates.
  The file holds two revisions of the module: the earlier one (lines 1-495) writes the changes
  of \<open>projectState\<close> inline, the later one (lines 495-1129) delegates them to \<open>transition\<close>
  of utils/stateMachine. The callbacks are otherwise the same and are modelled once, from the
  later revision; the earlier revision's inline state updates are modelled where they are used.
\<close>

subsection \<open>Data model\<close>

type_synonym timestamp = string

text \<open>
  Modelled from the spec: the type declarations of types/projectTypes (\<open>Task\<close>, \<open>Resource\<close>,
  \<open>CostRecord\<close>, \<open>Risk\<close>, \<open>Project\<close>, \<open>ProjectState\<close>, \<open>UndoItem\<close>) are missing from the
  sources. Each entity has an id and domain fields opaque to the store, kept here as a list
  of field name and value; a project has the fields the store reads or copies.
\<close>

type_synonym fields = "(string \<times> string) list"

record Task =
  task_id :: string
  task_fields :: fields

record Resource =
  resource_id :: string
  resource_fields :: fields

record CostRecord =
  cost_id :: string
  cost_fields :: fields

record Risk =
  risk_id :: string
  risk_fields :: fields

record Project =
  project_id :: string
  project_name :: string
  createdAt :: timestamp
  updatedAt :: timestamp
  progress :: nat
  tasks :: "Task list"
  resources :: "Resource list"
  costs :: "CostRecord list"
  risks :: "Risk list"
  milestones :: "string list"
  teams :: "string list"
  budget :: string

datatype SaveState = UNTITLED | DIRTY | SAVED

datatype TimerState = TimerActive | TimerPaused

datatype OpenedFrom = FromManual | FromFile | FromSnapshot

record ProjectState =
  currentState :: SaveState
  hasUnsavedChanges :: bool
  isUntitled :: bool
  lastModified :: timestamp
  autosaveTimer :: TimerState
  openedFrom :: "OpenedFrom option"

text \<open>The second argument of \<open>transition\<close>: 'initialize', 'edit', 'save', 'restoreSnapshot'.\<close>

datatype Event = EvInitialize | EvEdit | EvSave | EvRestoreSnapshot

text \<open>
  The \<open>type\<close> field of an undo item: 'add-task', 'update-task', 'delete-task', 'add-resource',
  'update-resource', 'delete-resource'.
\<close>

datatype UndoType =
  add_task | update_task | delete_task | add_resource | update_resource | delete_resource

text \<open>\<open>beforeState\<close> and \<open>afterState\<close> hold a task, a resource or null.\<close>

datatype Snapshot = TaskState Task | ResourceState Resource

record UndoItem =
  utype :: UndoType
  targetId :: string
  beforeState :: "Snapshot option"
  afterState :: "Snapshot option"

text \<open>The package handed to the Persistence Backend (the argument of \<open>saveAutoSnapshot\<close>).\<close>

record Manifest =
  project_uuid :: string
  file_version :: string
  created_platform :: string
  created_with_version :: string
  created_at :: timestamp
  updated_at :: timestamp

record ProjectPackage =
  manifest :: Manifest
  project :: Project
  pkg_tasks :: "Task list"
  pkg_resources :: "Resource list"
  pkg_milestones :: "string list"
  pkg_teams :: "string list"
  pkg_budget :: string
  attachments :: "string list"

text \<open>The argument of \<open>updateRecentProjects\<close>.\<close>

record RecentEntry =
  fileName :: string
  filePath :: string
  projectUUID :: string
  isTemporary :: bool

text \<open>
  The store: the five \<open>useState\<close> cells of \<open>ProjectProvider\<close>. The last two fields are not
  React state: they log, in order, the packages passed to \<open>saveAutoSnapshot\<close> and the entries
  passed to \<open>updateRecentProjects\<close>, the two writes to the Persistence Backend.
\<close>

record Store =
  projects :: "Project list"
  currentProject :: "Project option"
  undoStack :: "UndoItem list"
  redoStack :: "UndoItem list"
  projectState :: ProjectState
  savedSnapshots :: "ProjectPackage list"
  recentUpdates :: "RecentEntry list"

text \<open>
  The source would put a value that is no task (null, or a resource) into \<open>tasks\<close>, or a value
  that is no resource into \<open>resources\<close>: a state that \<open>Project\<close> does not have.
\<close>

datatype error = NotATask | NotAResource

subsection \<open>The save-state machine\<close>

text \<open>
  \<open>transition\<close> is imported from utils/stateMachine, which is not among the sources. The
  callbacks below take it as the parameter \<open>tr\<close>; the clock it reads is its third argument.
\<close>

type_synonym transitionFn = "ProjectState \<Rightarrow> Event \<Rightarrow> timestamp \<Rightarrow> ProjectState"

text \<open>
  Modelled from the spec: \<open>transition\<close> of utils/stateMachine, missing from the sources.
  Spec 4.1: initialize gives UNTITLED, hasUnsavedChanges=false, isUntitled=true; edit gives
  DIRTY, hasUnsavedChanges=true, isUntitled unchanged; save gives SAVED,
  hasUnsavedChanges=false, isUntitled=false; restoreSnapshot gives SAVED,
  hasUnsavedChanges=false, isUntitled=false, openedFrom=snapshot; lastModified is refreshed
  on every transition.
\<close>

fun transition :: transitionFn where
  "transition prev EvInitialize now =
     prev\<lparr>currentState := UNTITLED, hasUnsavedChanges := False, isUntitled := True,
          lastModified := now\<rparr>"
| "transition prev EvEdit now =
     prev\<lparr>currentState := DIRTY, hasUnsavedChanges := True, lastModified := now\<rparr>"
| "transition prev EvSave now =
     prev\<lparr>currentState := SAVED, hasUnsavedChanges := False, isUntitled := False,
          lastModified := now\<rparr>"
| "transition prev EvRestoreSnapshot now =
     prev\<lparr>currentState := SAVED, hasUnsavedChanges := False, isUntitled := False,
          openedFrom := Some FromSnapshot, lastModified := now\<rparr>"

subsection \<open>Project callbacks\<close>

text \<open>
  \<open>calculateProjectProgress\<close> (utils/projectUtils) is missing from the sources and is the
  parameter \<open>calc\<close>. \<open>now\<close> is what \<open>new Date().toISOString()\<close> returns during the call.
\<close>

definition updateProject ::
  "transitionFn \<Rightarrow> (Task list \<Rightarrow> nat) \<Rightarrow> timestamp \<Rightarrow> Project \<Rightarrow> Store \<Rightarrow> Store" where
  "updateProject tr calc now updatedProject s =
     (let finalProject =
            updatedProject\<lparr>progress := calc (tasks updatedProject), updatedAt := now\<rparr>
      in s\<lparr>projects :=
              map (\<lambda>p. if project_id p = project_id finalProject then finalProject else p)
                (projects s),
            currentProject := Some finalProject,
            projectState := tr (projectState s) EvEdit now\<rparr>)"


text \<open>
  \<open>createProject\<close>, lines 596-613. \<open>newProject\<close> is the result of \<open>createEmptyProject(name)\<close>
  (utils/projectUtils, missing from the sources).
\<close>

definition createProject :: "transitionFn \<Rightarrow> timestamp \<Rightarrow> Project \<Rightarrow> Store \<Rightarrow> Store" where
  "createProject tr now newProject s =
     s\<lparr>projects := projects s @ [newProject],
       currentProject := Some newProject,
       projectState := tr (projectState s) EvInitialize now,
       undoStack := [],
       redoStack := [],
       recentUpdates := recentUpdates s @
         [\<lparr>fileName = project_name newProject, filePath = '''',
           projectUUID = project_id newProject, isTemporary = True\<rparr>]\<rparr>"

text \<open>\<open>createProject\<close> of the earlier revision, lines 79-103: the new state is written inline.\<close>

definition createProject_early :: "timestamp \<Rightarrow> Project \<Rightarrow> Store \<Rightarrow> Store" where
  "createProject_early now newProject s =
     s\<lparr>projects := projects s @ [newProject],
       currentProject := Some newProject,
       projectState :=
         \<lparr>currentState = UNTITLED, hasUnsavedChanges = True, isUntitled = True,
          lastModified = now, autosaveTimer = TimerActive, openedFrom = Some FromManual\<rparr>,
       undoStack := [],
       redoStack := [],
       recentUpdates := recentUpdates s @
         [\<lparr>fileName = project_name newProject, filePath = '''',
           projectUUID = project_id newProject, isTemporary = True\<rparr>]\<rparr>"

text \<open>\<open>setCurrentProject\<close> is the bare state setter of \<open>currentProject\<close>, line 553.\<close>

definition setCurrentProject :: "Project \<Rightarrow> Store \<Rightarrow> Store" where
  "setCurrentProject p s = s\<lparr>currentProject := Some p\<rparr>"

text \<open>
  \<open>deleteProject\<close>, lines 636-648. \<open>currentProject?.id === projectId\<close> is false without an
  active project. \<open>newProject\<close> is what \<open>createEmptyProject()\<close> returns when the last project
  goes.
\<close>

definition deleteProject ::
  "transitionFn \<Rightarrow> timestamp \<Rightarrow> Project \<Rightarrow> string \<Rightarrow> Store \<Rightarrow> Store" where
  "deleteProject tr now newProject projectId s =
     (let s1 = s\<lparr>projects := filter (\<lambda>p. project_id p \<noteq> projectId) (projects s)\<rparr>
      in if map_option project_id (currentProject s) = Some projectId
         then (let remainingProjects = filter (\<lambda>p. project_id p \<noteq> projectId) (projects s)
               in if length remainingProjects > 0
                  then s1\<lparr>currentProject := Some (hd remainingProjects)\<rparr>
                  else createProject tr now newProject s1)
         else s1)"

subsection \<open>Undo recording\<close>

text \<open>\<open>pushUndo\<close>, lines 944-947: \<open>prev.slice(0, 49)\<close> is the first 49 entries.\<close>

definition pushUndo :: "UndoItem \<Rightarrow> Store \<Rightarrow> Store" where
  "pushUndo item s = s\<lparr>undoStack := take 49 (undoStack s) @ [item], redoStack := []\<rparr>"

subsection \<open>Task and resource callbacks\<close>

definition addTask ::
  "transitionFn \<Rightarrow> (Task list \<Rightarrow> nat) \<Rightarrow> timestamp \<Rightarrow> Task \<Rightarrow> Store \<Rightarrow> Store" where
  "addTask tr calc now task s =
     (case currentProject s of
        None \<Rightarrow> s
      | Some cp \<Rightarrow>
          updateProject tr calc now (cp\<lparr>tasks := tasks cp @ [task]\<rparr>)
            (pushUndo \<lparr>utype = add_task, targetId = task_id task, beforeState = None,
                       afterState = Some (TaskState task)\<rparr> s))"

definition updateTask ::
  "transitionFn \<Rightarrow> (Task list \<Rightarrow> nat) \<Rightarrow> timestamp \<Rightarrow> Task \<Rightarrow> Store \<Rightarrow> Store" where
  "updateTask tr calc now updatedTask s =
     (case currentProject s of
        None \<Rightarrow> s
      | Some cp \<Rightarrow>
          updateProject tr calc now
            (cp\<lparr>tasks := map (\<lambda>t. if task_id t = task_id updatedTask then updatedTask else t)
                            (tasks cp)\<rparr>)
            (case find (\<lambda>t. task_id t = task_id updatedTask) (tasks cp) of
               Some oldTask \<Rightarrow>
                 pushUndo \<lparr>utype = update_task, targetId = task_id updatedTask,
                           beforeState = Some (TaskState oldTask),
                           afterState = Some (TaskState updatedTask)\<rparr> s
             | None \<Rightarrow> s))"

definition deleteTask ::
  "transitionFn \<Rightarrow> (Task list \<Rightarrow> nat) \<Rightarrow> timestamp \<Rightarrow> string \<Rightarrow> Store \<Rightarrow> Store" where
  "deleteTask tr calc now taskId s =
     (case currentProject s of
        None \<Rightarrow> s
      | Some cp \<Rightarrow>
          updateProject tr calc now
            (cp\<lparr>tasks := filter (\<lambda>t. task_id t \<noteq> taskId) (tasks cp)\<rparr>)
            (case find (\<lambda>t. task_id t = taskId) (tasks cp) of
               Some oldTask \<Rightarrow>
                 pushUndo \<lparr>utype = delete_task, targetId = taskId,
                           beforeState = Some (TaskState oldTask), afterState = None\<rparr> s
             | None \<Rightarrow> s))"

definition addResource ::
  "transitionFn \<Rightarrow> (Task list \<Rightarrow> nat) \<Rightarrow> timestamp \<Rightarrow> Resource \<Rightarrow> Store \<Rightarrow> Store" where
  "addResource tr calc now resource s =
     (case currentProject s of
        None \<Rightarrow> s
      | Some cp \<Rightarrow>
          updateProject tr calc now (cp\<lparr>resources := resources cp @ [resource]\<rparr>)
            (pushUndo \<lparr>utype = add_resource, targetId = resource_id resource,
                       beforeState = None, afterState = Some (ResourceState resource)\<rparr> s))"

definition updateResource ::
  "transitionFn \<Rightarrow> (Task list \<Rightarrow> nat) \<Rightarrow> timestamp \<Rightarrow> Resource \<Rightarrow> Store \<Rightarrow> Store" where
  "updateResource tr calc now updatedResource s =
     (case currentProject s of
        None \<Rightarrow> s
      | Some cp \<Rightarrow>
          updateProject tr calc now
            (cp\<lparr>resources :=
                  map (\<lambda>r. if resource_id r = resource_id updatedResource
                           then updatedResource else r) (resources cp)\<rparr>)
            (case find (\<lambda>r. resource_id r = resource_id updatedResource) (resources cp) of
               Some oldResource \<Rightarrow>
                 pushUndo \<lparr>utype = update_resource, targetId = resource_id updatedResource,
                           beforeState = Some (ResourceState oldResource),
                           afterState = Some (ResourceState updatedResource)\<rparr> s
             | None \<Rightarrow> s))"

definition deleteResource ::
  "transitionFn \<Rightarrow> (Task list \<Rightarrow> nat) \<Rightarrow> timestamp \<Rightarrow> string \<Rightarrow> Store \<Rightarrow> Store" where
  "deleteResource tr calc now resourceId s =
     (case currentProject s of
        None \<Rightarrow> s
      | Some cp \<Rightarrow>
          updateProject tr calc now
            (cp\<lparr>resources := filter (\<lambda>r. resource_id r \<noteq> resourceId) (resources cp)\<rparr>)
            (case find (\<lambda>r. resource_id r = resourceId) (resources cp) of
               Some oldResource \<Rightarrow>
                 pushUndo \<lparr>utype = delete_resource, targetId = resourceId,
                           beforeState = Some (ResourceState oldResource),
                           afterState = None\<rparr> s
             | None \<Rightarrow> s))"

subsection \<open>Undo and redo\<close>

text \<open>
  What the replay puts into a collection. \<open>[...tasks, st]\<close> always stores \<open>st\<close>;
  \<open>tasks.map(t => t.id === tid ? st : t)\<close> stores it only where an id matches.
\<close>

definition appendTask :: "Snapshot option \<Rightarrow> Task list \<Rightarrow> error + Task list" where
  "appendTask st ts = (case st of Some (TaskState b) \<Rightarrow> Inr (ts @ [b]) | _ \<Rightarrow> Inl NotATask)"

definition replaceTask :: "string \<Rightarrow> Snapshot option \<Rightarrow> Task list \<Rightarrow> error + Task list" where
  "replaceTask tid st ts =
     (case st of
        Some (TaskState b) \<Rightarrow> Inr (map (\<lambda>t. if task_id t = tid then b else t) ts)
      | _ \<Rightarrow> if find (\<lambda>t. task_id t = tid) ts = None then Inr ts else Inl NotATask)"

definition appendResource :: "Snapshot option \<Rightarrow> Resource list \<Rightarrow> error + Resource list" where
  "appendResource st rs =
     (case st of Some (ResourceState b) \<Rightarrow> Inr (rs @ [b]) | _ \<Rightarrow> Inl NotAResource)"

definition replaceResource ::
  "string \<Rightarrow> Snapshot option \<Rightarrow> Resource list \<Rightarrow> error + Resource list" where
  "replaceResource rid st rs =
     (case st of
        Some (ResourceState b) \<Rightarrow> Inr (map (\<lambda>r. if resource_id r = rid then b else r) rs)
      | _ \<Rightarrow> if find (\<lambda>r. resource_id r = rid) rs = None then Inr rs else Inl NotAResource)"

text \<open>\<open>undo\<close>, lines 949-1014.\<close>

definition undo ::
  "transitionFn \<Rightarrow> (Task list \<Rightarrow> nat) \<Rightarrow> timestamp \<Rightarrow> Store \<Rightarrow> error + Store" where
  "undo tr calc now s =
     (if length (undoStack s) = 0 then Inr s
      else case currentProject s of
        None \<Rightarrow> Inr s
      | Some cp \<Rightarrow>
          (let lastAction = last (undoStack s);
               s1 = s\<lparr>undoStack := butlast (undoStack s),
                      redoStack := redoStack s @ [lastAction]\<rparr>
           in case utype lastAction of
                add_task \<Rightarrow>
                  Inr (updateProject tr calc now
                    (cp\<lparr>tasks := filter (\<lambda>t. task_id t \<noteq> targetId lastAction) (tasks cp)\<rparr>) s1)
              | update_task \<Rightarrow>
                  (case replaceTask (targetId lastAction) (beforeState lastAction) (tasks cp) of
                     Inl e \<Rightarrow> Inl e
                   | Inr ts \<Rightarrow> Inr (updateProject tr calc now (cp\<lparr>tasks := ts\<rparr>) s1))
              | delete_task \<Rightarrow>
                  (case appendTask (beforeState lastAction) (tasks cp) of
                     Inl e \<Rightarrow> Inl e
                   | Inr ts \<Rightarrow> Inr (updateProject tr calc now (cp\<lparr>tasks := ts\<rparr>) s1))
              | add_resource \<Rightarrow>
                  Inr (updateProject tr calc now
                    (cp\<lparr>resources :=
                          filter (\<lambda>r. resource_id r \<noteq> targetId lastAction) (resources cp)\<rparr>) s1)
              | update_resource \<Rightarrow>
                  (case replaceResource (targetId lastAction) (beforeState lastAction)
                          (resources cp) of
                     Inl e \<Rightarrow> Inl e
                   | Inr rs \<Rightarrow> Inr (updateProject tr calc now (cp\<lparr>resources := rs\<rparr>) s1))
              | delete_resource \<Rightarrow>
                  (case appendResource (beforeState lastAction) (resources cp) of
                     Inl e \<Rightarrow> Inl e
                   | Inr rs \<Rightarrow> Inr (updateProject tr calc now (cp\<lparr>resources := rs\<rparr>) s1))))"

text \<open>\<open>redo\<close>, lines 1016-1081.\<close>

definition redo ::
  "transitionFn \<Rightarrow> (Task list \<Rightarrow> nat) \<Rightarrow> timestamp \<Rightarrow> Store \<Rightarrow> error + Store" where
  "redo tr calc now s =
     (if length (redoStack s) = 0 then Inr s
      else case currentProject s of
        None \<Rightarrow> Inr s
      | Some cp \<Rightarrow>
          (let lastAction = last (redoStack s);
               s1 = s\<lparr>redoStack := butlast (redoStack s),
                      undoStack := undoStack s @ [lastAction]\<rparr>
           in case utype lastAction of
                add_task \<Rightarrow>
                  (case appendTask (afterState lastAction) (tasks cp) of
                     Inl e \<Rightarrow> Inl e
                   | Inr ts \<Rightarrow> Inr (updateProject tr calc now (cp\<lparr>tasks := ts\<rparr>) s1))
              | update_task \<Rightarrow>
                  (case replaceTask (targetId lastAction) (afterState lastAction) (tasks cp) of
                     Inl e \<Rightarrow> Inl e
                   | Inr ts \<Rightarrow> Inr (updateProject tr calc now (cp\<lparr>tasks := ts\<rparr>) s1))
              | delete_task \<Rightarrow>
                  Inr (updateProject tr calc now
                    (cp\<lparr>tasks := filter (\<lambda>t. task_id t \<noteq> targetId lastAction) (tasks cp)\<rparr>) s1)
              | add_resource \<Rightarrow>
                  (case appendResource (afterState lastAction) (resources cp) of
                     Inl e \<Rightarrow> Inl e
                   | Inr rs \<Rightarrow> Inr (updateProject tr calc now (cp\<lparr>resources := rs\<rparr>) s1))
              | update_resource \<Rightarrow>
                  (case replaceResource (targetId lastAction) (afterState lastAction)
                          (resources cp) of
                     Inl e \<Rightarrow> Inl e
                   | Inr rs \<Rightarrow> Inr (updateProject tr calc now (cp\<lparr>resources := rs\<rparr>) s1))
              | delete_resource \<Rightarrow>
                  Inr (updateProject tr calc now
                    (cp\<lparr>resources :=
                          filter (\<lambda>r. resource_id r \<noteq> targetId lastAction) (resources cp)\<rparr>) s1)))"

subsection \<open>Persistence\<close>

text \<open>
  The package literal that \<open>saveProject\<close> (lines 843-859) and the autosave timer
  (lines 570-586) both pass to \<open>saveAutoSnapshot\<close>.
\<close>

definition snapshotPackage :: "Project \<Rightarrow> timestamp \<Rightarrow> ProjectPackage" where
  "snapshotPackage cp now =
     \<lparr>manifest =
        \<lparr>project_uuid = project_id cp, file_version = ''1.0.0'', created_platform = ''Web'',
         created_with_version = ''1.0.0'', created_at = createdAt cp, updated_at = now\<rparr>,
      project = cp, pkg_tasks = tasks cp, pkg_resources = resources cp,
      pkg_milestones = milestones cp, pkg_teams = teams cp, pkg_budget = budget cp,
      attachments = []\<rparr>"

text \<open>\<open>saveProject\<close>, lines 839-875.\<close>

definition saveProject :: "transitionFn \<Rightarrow> timestamp \<Rightarrow> Store \<Rightarrow> Store" where
  "saveProject tr now s =
     (case currentProject s of
        None \<Rightarrow> s
      | Some cp \<Rightarrow>
          s\<lparr>savedSnapshots := savedSnapshots s @ [snapshotPackage cp now],
            projectState := tr (projectState s) EvSave now,
            undoStack := [],
            redoStack := [],
            recentUpdates := recentUpdates s @
              [\<lparr>fileName = project_name cp, filePath = '''', projectUUID = project_id cp,
                isTemporary = False\<rparr>]\<rparr>)"

text \<open>\<open>saveProject\<close> of the earlier revision, lines 278-319, with the state update inline.\<close>

definition saveProject_early :: "timestamp \<Rightarrow> Store \<Rightarrow> Store" where
  "saveProject_early now s =
     (case currentProject s of
        None \<Rightarrow> s
      | Some cp \<Rightarrow>
          s\<lparr>savedSnapshots := savedSnapshots s @ [snapshotPackage cp now],
            projectState :=
              (projectState s)\<lparr>currentState := SAVED, hasUnsavedChanges := False,
                               lastModified := now\<rparr>,
            undoStack := [],
            redoStack := [],
            recentUpdates := recentUpdates s @
              [\<lparr>fileName = project_name cp, filePath = '''', projectUUID = project_id cp,
                isTemporary = False\<rparr>]\<rparr>)"

text \<open>
  \<open>restoreSnapshot\<close>, lines 902-917. \<open>loadSnapshot\<close> (utils/fileSystem) is missing from the
  sources: the parameter is what the Persistence Backend answers for a name, \<open>None\<close> for null.
\<close>

definition restoreSnapshot ::
  "transitionFn \<Rightarrow> timestamp \<Rightarrow> (string \<Rightarrow> ProjectPackage option) \<Rightarrow> string \<Rightarrow> Store \<Rightarrow> Store"
  where
  "restoreSnapshot tr now loadSnapshot name s =
     (case loadSnapshot name of
        None \<Rightarrow> s
      | Some pkg \<Rightarrow>
          s\<lparr>currentProject := Some (project pkg),
            projects :=
              filter (\<lambda>p. project_id p \<noteq> project_id (project pkg)) (projects s)
                @ [project pkg],
            projectState := tr (projectState s) EvRestoreSnapshot now,
            recentUpdates := recentUpdates s @
              [\<lparr>fileName = project_name (project pkg), filePath = '''',
                projectUUID = project_id (project pkg), isTemporary = False\<rparr>]\<rparr>)"

text \<open>
  One firing of the autosave interval, lines 566-593. The interval exists only while
  \<open>autosaveTimer\<close> is 'active' and a project is loaded; its callback calls no state setter.
\<close>

definition autosaveTick :: "timestamp \<Rightarrow> Store \<Rightarrow> Store" where
  "autosaveTick now s =
     (if autosaveTimer (projectState s) = TimerActive
      then (case currentProject s of
              None \<Rightarrow> s
            | Some cp \<Rightarrow>
                if hasUnsavedChanges (projectState s)
                then s\<lparr>savedSnapshots := savedSnapshots s @ [snapshotPackage cp now]\<rparr>
                else s)
      else s)"

subsection \<open>Sequences of calls\<close>

text \<open>The six recorded mutators as one call type, for stating properties of call sequences.\<close>

datatype Op =
  AddTaskOp Task
| UpdateTaskOp Task
| DeleteTaskOp string
| AddResourceOp Resource
| UpdateResourceOp Resource
| DeleteResourceOp string

fun applyOp ::
  "transitionFn \<Rightarrow> (Task list \<Rightarrow> nat) \<Rightarrow> timestamp \<times> Op \<Rightarrow> Store \<Rightarrow> Store" where
  "applyOp tr calc (now, AddTaskOp t) s = addTask tr calc now t s"
| "applyOp tr calc (now, UpdateTaskOp t) s = updateTask tr calc now t s"
| "applyOp tr calc (now, DeleteTaskOp i) s = deleteTask tr calc now i s"
| "applyOp tr calc (now, AddResourceOp r) s = addResource tr calc now r s"
| "applyOp tr calc (now, UpdateResourceOp r) s = updateResource tr calc now r s"
| "applyOp tr calc (now, DeleteResourceOp i) s = deleteResource tr calc now i s"

text \<open>An add is admissible when its id is not yet in the active project's collection.\<close>

fun opAdmissible :: "Op \<Rightarrow> Project \<Rightarrow> bool" where
  "opAdmissible (AddTaskOp t) cp = (find (\<lambda>x. task_id x = task_id t) (tasks cp) = None)"
| "opAdmissible (AddResourceOp r) cp =
     (find (\<lambda>x. resource_id x = resource_id r) (resources cp) = None)"
| "opAdmissible _ cp = True"

text \<open>Running a sequence of calls, each at its own time; \<open>None\<close> at an inadmissible add.\<close>

fun run ::
  "transitionFn \<Rightarrow> (Task list \<Rightarrow> nat) \<Rightarrow> (timestamp \<times> Op) list \<Rightarrow> Store \<Rightarrow> Store option"
  where
  "run tr calc [] s = Some s"
| "run tr calc (c # cs) s =
     (case currentProject s of
        None \<Rightarrow> None
      | Some cp \<Rightarrow> if opAdmissible (snd c) cp then run tr calc cs (applyOp tr calc c s) else None)"

text \<open>\<open>undo()\<close> and \<open>redo()\<close> called once at each of the given times.\<close>

fun undoN ::
  "transitionFn \<Rightarrow> (Task list \<Rightarrow> nat) \<Rightarrow> timestamp list \<Rightarrow> Store \<Rightarrow> error + Store" where
  "undoN tr calc [] s = Inr s"
| "undoN tr calc (now # nows) s =
     (case undo tr calc now s of Inl e \<Rightarrow> Inl e | Inr s' \<Rightarrow> undoN tr calc nows s')"

fun redoN ::
  "transitionFn \<Rightarrow> (Task list \<Rightarrow> nat) \<Rightarrow> timestamp list \<Rightarrow> Store \<Rightarrow> error + Store" where
  "redoN tr calc [] s = Inr s"
| "redoN tr calc (now # nows) s =
     (case redo tr calc now s of Inl e \<Rightarrow> Inl e | Inr s' \<Rightarrow> redoN tr calc nows s')"

subsection \<open>What a replay does to each collection\<close>

definition undoTasks :: "UndoItem \<Rightarrow> Task list \<Rightarrow> error + Task list" where
  "undoTasks a ts =
     (case utype a of
        add_task \<Rightarrow> Inr (filter (\<lambda>t. task_id t \<noteq> targetId a) ts)
      | update_task \<Rightarrow> replaceTask (targetId a) (beforeState a) ts
      | delete_task \<Rightarrow> appendTask (beforeState a) ts
      | _ \<Rightarrow> Inr ts)"

definition redoTasks :: "UndoItem \<Rightarrow> Task list \<Rightarrow> error + Task list" where
  "redoTasks a ts =
     (case utype a of
        add_task \<Rightarrow> appendTask (afterState a) ts
      | update_task \<Rightarrow> replaceTask (targetId a) (afterState a) ts
      | delete_task \<Rightarrow> Inr (filter (\<lambda>t. task_id t \<noteq> targetId a) ts)
      | _ \<Rightarrow> Inr ts)"

definition undoResources :: "UndoItem \<Rightarrow> Resource list \<Rightarrow> error + Resource list" where
  "undoResources a rs =
     (case utype a of
        add_resource \<Rightarrow> Inr (filter (\<lambda>r. resource_id r \<noteq> targetId a) rs)
      | update_resource \<Rightarrow> replaceResource (targetId a) (beforeState a) rs
      | delete_resource \<Rightarrow> appendResource (beforeState a) rs
      | _ \<Rightarrow> Inr rs)"

definition redoResources :: "UndoItem \<Rightarrow> Resource list \<Rightarrow> error + Resource list" where
  "redoResources a rs =
     (case utype a of
        add_resource \<Rightarrow> appendResource (afterState a) rs
      | update_resource \<Rightarrow> replaceResource (targetId a) (afterState a) rs
      | delete_resource \<Rightarrow> Inr (filter (\<lambda>r. resource_id r \<noteq> targetId a) rs)
      | _ \<Rightarrow> Inr rs)"

text \<open>
  An undo item fits the collections when it describes the last change made to them: the
  entity it added is there once under the target id, the entity it wrote is what the target
  id holds, the entity it deleted is gone.
\<close>

definition fitsTasks :: "UndoItem \<Rightarrow> Task list \<Rightarrow> bool" where
  "fitsTasks a ts =
     (case utype a of
        add_task \<Rightarrow>
          (case afterState a of
             Some (TaskState t) \<Rightarrow>
               task_id t = targetId a \<and> filter (\<lambda>x. task_id x = targetId a) ts = [t]
           | _ \<Rightarrow> False)
      | update_task \<Rightarrow>
          (case beforeState a of
             Some (TaskState b) \<Rightarrow>
               (case afterState a of
                  Some (TaskState t) \<Rightarrow>
                    task_id b = targetId a \<and> task_id t = targetId a \<and>
                    list_all (\<lambda>x. x = t) (filter (\<lambda>x. task_id x = targetId a) ts)
                | _ \<Rightarrow> False)
           | _ \<Rightarrow> False)
      | delete_task \<Rightarrow>
          (case beforeState a of
             Some (TaskState b) \<Rightarrow>
               task_id b = targetId a \<and> filter (\<lambda>x. task_id x = targetId a) ts = []
           | _ \<Rightarrow> False)
      | _ \<Rightarrow> True)"

definition fitsResources :: "UndoItem \<Rightarrow> Resource list \<Rightarrow> bool" where
  "fitsResources a rs =
     (case utype a of
        add_resource \<Rightarrow>
          (case afterState a of
             Some (ResourceState r) \<Rightarrow>
               resource_id r = targetId a \<and> filter (\<lambda>x. resource_id x = targetId a) rs = [r]
           | _ \<Rightarrow> False)
      | update_resource \<Rightarrow>
          (case beforeState a of
             Some (ResourceState b) \<Rightarrow>
               (case afterState a of
                  Some (ResourceState r) \<Rightarrow>
                    resource_id b = targetId a \<and> resource_id r = targetId a \<and>
                    list_all (\<lambda>x. x = r) (filter (\<lambda>x. resource_id x = targetId a) rs)
                | _ \<Rightarrow> False)
           | _ \<Rightarrow> False)
      | delete_resource \<Rightarrow>
          (case beforeState a of
             Some (ResourceState b) \<Rightarrow>
               resource_id b = targetId a \<and> filter (\<lambda>x. resource_id x = targetId a) rs = []
           | _ \<Rightarrow> False)
      | _ \<Rightarrow> True)"

text \<open>
  A history, most recent item first, is consistent with the collections when every item fits
  the collections as they are once the items above it have been undone.
\<close>

fun consistent :: "UndoItem list \<Rightarrow> Task list \<Rightarrow> Resource list \<Rightarrow> bool" where
  "consistent [] ts rs = True"
| "consistent (a # as) ts rs =
     (fitsTasks a ts \<and> fitsResources a rs \<and>
      (case undoTasks a ts of
         Inl e \<Rightarrow> False
       | Inr ts' \<Rightarrow>
           (case undoResources a rs of
              Inl e \<Rightarrow> False
            | Inr rs' \<Rightarrow> consistent as ts' rs')))"

text \<open>
  The store's history is in order: a project is active, its task ids and its resource ids
  are pairwise distinct, and the undo stack, read from its top, is consistent with them.
\<close>

definition historyOk :: "Store \<Rightarrow> bool" where
  "historyOk s =
     (case currentProject s of
        None \<Rightarrow> False
      | Some cp \<Rightarrow>
          distinct (map task_id (tasks cp)) \<and> distinct (map resource_id (resources cp)) \<and>
          consistent (rev (undoStack s)) (tasks cp) (resources cp))"

text \<open>The active project's progress is what \<open>calculateProjectProgress\<close> gives for its tasks.\<close>

definition progressCurrent :: "(Task list \<Rightarrow> nat) \<Rightarrow> Store \<Rightarrow> bool" where
  "progressCurrent calc s =
     (case currentProject s of None \<Rightarrow> False | Some p \<Rightarrow> progress p = calc (tasks p))"

subsection \<open>Example stores\<close>

definition exampleProject :: Project where
  "exampleProject =
     \<lparr>project_id = ''p1'', project_name = ''P'', createdAt = ''t0'', updatedAt = ''t0'',
      progress = 0, tasks = [], resources = [], costs = [], risks = [], milestones = [],
      teams = [], budget = ''''\<rparr>"

definition exampleStore :: Store where
  "exampleStore =
     \<lparr>projects = [exampleProject], currentProject = Some exampleProject, undoStack = [],
      redoStack = [],
      projectState =
        \<lparr>currentState = SAVED, hasUnsavedChanges = False, isUntitled = False,
         lastModified = ''t0'', autosaveTimer = TimerActive, openedFrom = None\<rparr>,
      savedSnapshots = [], recentUpdates = []\<rparr>"

definition taskA :: Task where
  "taskA = \<lparr>task_id = ''a'', task_fields = [(''name'', ''x'')]\<rparr>"

definition taskA' :: Task where
  "taskA' = \<lparr>task_id = ''a'', task_fields = [(''name'', ''y'')]\<rparr>"

definition taskB :: Task where
  "taskB = \<lparr>task_id = ''b'', task_fields = [(''name'', ''z'')]\<rparr>"

definition resourceA :: Resource where
  "resourceA = \<lparr>resource_id = ''r'', resource_fields = [(''name'', ''x'')]\<rparr>"

text \<open>An undo item whose target id is \<open>n\<close> letters long: item number \<open>n\<close>.\<close>

definition numberedItem :: "nat \<Rightarrow> UndoItem" where
  "numberedItem n =
     \<lparr>utype = add_task, targetId = replicate n (CHR ''x''), beforeState = None,
      afterState = Some (TaskState \<lparr>task_id = replicate n (CHR ''x''), task_fields = []\<rparr>)\<rparr>"

definition addItemA :: UndoItem where
  "addItemA =
     \<lparr>utype = add_task, targetId = ''a'', beforeState = None,
      afterState = Some (TaskState taskA)\<rparr>"

text \<open>The example store after \<open>addTask(taskA)\<close> at time t1, progress being the task count.\<close>

definition dirtyStore :: Store where
  "dirtyStore = addTask transition length ''t1'' taskA exampleStore"

definition exampleOps :: "(timestamp \<times> Op) list" where
  "exampleOps =
     [(''t1'', AddTaskOp taskA), (''t2'', AddTaskOp taskB), (''t3'', UpdateTaskOp taskA'),
      (''t4'', DeleteTaskOp ''b''), (''t5'', AddResourceOp resourceA)]"

text \<open>The example store after the calls of \<open>exampleOps\<close>.\<close>

definition editedStore :: Store where
  "editedStore = the (run transition length exampleOps exampleStore)"

text \<open>A second project, holding a task with the id of \<open>taskA\<close>.\<close>

definition otherProject :: Project where
  "otherProject =
     \<lparr>project_id = ''p2'', project_name = ''Q'', createdAt = ''t0'', updatedAt = ''t0'',
      progress = 0, tasks = [taskA'], resources = [], costs = [], risks = [], milestones = [],
      teams = [], budget = ''''\<rparr>"

text \<open>
  51 calls on the example store: tasks 1 to 49 are added, task 49 is renamed, task 51 is
  added.
\<close>

definition numberedTask :: "nat \<Rightarrow> Task" where
  "numberedTask n = \<lparr>task_id = [char_of n], task_fields = []\<rparr>"

definition overCapOps :: "(timestamp \<times> Op) list" where
  "overCapOps =
     map (\<lambda>n. (''t'', AddTaskOp (numberedTask n))) [1..<50] @
     [(''t'', UpdateTaskOp ((numberedTask 49)\<lparr>task_fields := [(''name'', ''new'')]\<rparr>)),
      (''t'', AddTaskOp (numberedTask 51))]"

text \<open>The fields of the active project's first task with the given id.\<close>

definition fieldsOf :: "string \<Rightarrow> Store \<Rightarrow> fields option" where
  "fieldsOf i s =
     (case currentProject s of
        None \<Rightarrow> None
      | Some p \<Rightarrow> map_option task_fields (find (\<lambda>t. task_id t = i) (tasks p)))"

section \<open>Properties\<close>

subsection \<open>What the building blocks leave alone\<close>

lemma updateProject_sel [simp]:
  "undoStack (updateProject tr calc now p s) = undoStack s"
  "redoStack (updateProject tr calc now p s) = redoStack s"
  "currentProject (updateProject tr calc now p s) =
     Some (p\<lparr>progress := calc (tasks p), updatedAt := now\<rparr>)"
  "projectState (updateProject tr calc now p s) = tr (projectState s) EvEdit now"
  "savedSnapshots (updateProject tr calc now p s) = savedSnapshots s"
  "recentUpdates (updateProject tr calc now p s) = recentUpdates s"
  by (simp_all add: updateProject_def Let_def)

lemma pushUndo_sel [simp]:
  "undoStack (pushUndo item s) = take 49 (undoStack s) @ [item]"
  "redoStack (pushUndo item s) = []"
  "currentProject (pushUndo item s) = currentProject s"
  "projectState (pushUndo item s) = projectState s"
  "projects (pushUndo item s) = projects s"
  "savedSnapshots (pushUndo item s) = savedSnapshots s"
  "recentUpdates (pushUndo item s) = recentUpdates s"
  by (simp_all add: pushUndo_def)

lemma redo_empty: "redoStack s = [] \<Longrightarrow> redo tr calc now s = Inr s"
  by (simp add: redo_def)

lemma undo_empty: "undoStack s = [] \<Longrightarrow> undo tr calc now s = Inr s"
  by (simp add: undo_def)

text \<open>\<open>undo\<close> and \<open>redo\<close> as one replay on each collection followed by \<open>updateProject\<close>.\<close>

lemma undo_char:
  assumes "undoStack s \<noteq> []" "currentProject s = Some cp"
  shows "undo tr calc now s =
     (case undoTasks (last (undoStack s)) (tasks cp) of
        Inl e \<Rightarrow> Inl e
      | Inr ts \<Rightarrow>
          (case undoResources (last (undoStack s)) (resources cp) of
             Inl e \<Rightarrow> Inl e
           | Inr rs \<Rightarrow>
               Inr (updateProject tr calc now (cp\<lparr>tasks := ts, resources := rs\<rparr>)
                      (s\<lparr>undoStack := butlast (undoStack s),
                         redoStack := redoStack s @ [last (undoStack s)]\<rparr>))))"
  using assms
  by (cases "utype (last (undoStack s))")
     (simp_all add: undo_def undoTasks_def undoResources_def Let_def split: sum.splits)

lemma redo_char:
  assumes "redoStack s \<noteq> []" "currentProject s = Some cp"
  shows "redo tr calc now s =
     (case redoTasks (last (redoStack s)) (tasks cp) of
        Inl e \<Rightarrow> Inl e
      | Inr ts \<Rightarrow>
          (case redoResources (last (redoStack s)) (resources cp) of
             Inl e \<Rightarrow> Inl e
           | Inr rs \<Rightarrow>
               Inr (updateProject tr calc now (cp\<lparr>tasks := ts, resources := rs\<rparr>)
                      (s\<lparr>redoStack := butlast (redoStack s),
                         undoStack := undoStack s @ [last (redoStack s)]\<rparr>))))"
  using assms
  by (cases "utype (last (redoStack s))")
     (simp_all add: redo_def redoTasks_def redoResources_def Let_def split: sum.splits)

lemma undo_stacks:
  assumes "undo tr calc now s = Inr s1" "undoStack s \<noteq> []" "currentProject s \<noteq> None"
  shows "redoStack s1 = redoStack s @ [last (undoStack s)] \<and>
         undoStack s1 = butlast (undoStack s) \<and> currentProject s1 \<noteq> None"
proof -
  from assms(3) obtain cp where "currentProject s = Some cp" by blast
  from assms(1) undo_char [OF assms(2) this, of tr calc now] show ?thesis
    by (auto split: sum.splits)
qed

lemma redo_stacks:
  assumes "redo tr calc now s = Inr s1" "redoStack s \<noteq> []" "currentProject s \<noteq> None"
  shows "undoStack s1 = undoStack s @ [last (redoStack s)] \<and>
         redoStack s1 = butlast (redoStack s) \<and> currentProject s1 \<noteq> None"
proof -
  from assms(3) obtain cp where "currentProject s = Some cp" by blast
  from assms(1) redo_char [OF assms(2) this, of tr calc now] show ?thesis
    by (auto split: sum.splits)
qed

text \<open>Unfolding the examples and the callbacks, for evaluating concrete calls.\<close>

lemmas example_defs =
  exampleProject_def exampleStore_def taskA_def taskA'_def taskB_def resourceA_def
  addItemA_def dirtyStore_def exampleOps_def otherProject_def

lemmas store_defs =
  updateProject_def pushUndo_def addTask_def updateTask_def deleteTask_def addResource_def
  updateResource_def deleteResource_def undo_def redo_def appendTask_def replaceTask_def
  appendResource_def replaceResource_def Let_def

subsection \<open>The cap of the undo stack\<close>

lemma fold_pushUndo_stack:
  "undoStack (fold pushUndo xs s) =
     (if length (undoStack s) + length xs \<le> 50 \<or> xs = [] then undoStack s @ xs
      else take 49 (undoStack s @ xs) @ [last xs])"
proof (induction xs rule: rev_induct)
  case Nil
  then show ?case by simp
next
  case (snoc x xs)
  show ?case
  proof (cases "xs = []")
    case True
    then show ?thesis by auto
  next
    case False
    then show ?thesis using snoc by (auto simp: min_def)
  qed
qed

text \<open>
  C2. Pushing items 1 to 51 onto an empty undo stack leaves 50 entries, but they are items
  1 to 49 followed by item 51: the entry dropped at the cap is item 50, the newest one on the
  stack, not the oldest. For items that differ, the stack is not items 2 to 51.
\<close>

theorem pushUndo_51_drops_item_50:
  "undoStack (fold pushUndo (map f [1..<52]) (s\<lparr>undoStack := []\<rparr>)) = map f ([1..<50] @ [51]) \<and>
   length (undoStack (fold pushUndo (map f [1..<52]) (s\<lparr>undoStack := []\<rparr>))) = 50 \<and>
   undoStack (fold pushUndo (map numberedItem [1..<52]) (s\<lparr>undoStack := []\<rparr>))
     \<noteq> map numberedItem [2..<52]"
proof -
  have a: "[1..<52] = [1..<50] @ [50, 51]" by (simp add: upt_rec)
  have b: "undoStack (fold pushUndo (map g ([1..<50] @ [50, 51])) (s\<lparr>undoStack := []\<rparr>))
             = map g ([1..<50] @ [51])" for g
    by (simp add: fold_pushUndo_stack del: upt.simps)
  have c: "targetId (hd (map numberedItem ([1..<50] @ [51])))
             \<noteq> targetId (hd (map numberedItem [2..<52]))"
    by (simp add: numberedItem_def upt_rec eval_nat_numeral)
  show ?thesis unfolding a using b c by auto
qed

subsection \<open>Recording an edit discards the redo stack\<close>

text \<open>
  C3. \<open>pushUndo\<close> leaves the redo stack empty whatever the item and the stacks before, so a
  \<open>redo\<close> right after it changes nothing. After a fresh edit (\<open>pushUndo\<close> followed by
  \<open>updateProject\<close>, the shape of every recording mutator) and one \<open>undo\<close>, the redo stack holds
  the fresh edit's item only: one \<open>redo\<close> replays it and the next \<open>redo\<close>, which could only
  target a discarded action, changes nothing.
\<close>

theorem pushUndo_clears_redoStack:
  "redoStack (pushUndo item s) = [] \<and>
   redo tr calc now (pushUndo item s) = Inr (pushUndo item s) \<and>
   (\<forall>s1 s2. undo tr calc now1 (updateProject tr calc now0 p (pushUndo item s)) = Inr s1 \<longrightarrow>
      redo tr calc now2 s1 = Inr s2 \<longrightarrow>
      redoStack s1 = [item] \<and> redoStack s2 = [] \<and> redo tr calc now3 s2 = Inr s2)"
proof (intro conjI allI impI)
  show "redoStack (pushUndo item s) = []" by simp
  show "redo tr calc now (pushUndo item s) = Inr (pushUndo item s)"
    by (simp add: redo_empty)
next
  fix s1 s2
  assume u: "undo tr calc now1 (updateProject tr calc now0 p (pushUndo item s)) = Inr s1"
    and r: "redo tr calc now2 s1 = Inr s2"
  from undo_stacks [OF u] show r1: "redoStack s1 = [item]" by simp
  from undo_stacks [OF u] have "currentProject s1 \<noteq> None" by simp
  with redo_stacks [OF r] r1 show r2: "redoStack s2 = []" by simp
  then show "redo tr calc now3 s2 = Inr s2" by (simp add: redo_empty)
qed

theorem pushUndo_clears_redoStack_witness:
  "undo transition length ''t2''
      (updateProject transition length ''t1'' (exampleProject\<lparr>tasks := [taskA]\<rparr>)
         (pushUndo addItemA (exampleStore\<lparr>redoStack := [numberedItem 7]\<rparr>)))
     = Inr (projr (undo transition length ''t2'' dirtyStore)) \<and>
   redo transition length ''t3'' (projr (undo transition length ''t2'' dirtyStore))
     = Inr (dirtyStore\<lparr>currentProject :=
              Some (exampleProject\<lparr>tasks := [taskA], progress := 1, updatedAt := ''t3''\<rparr>),
            projects := [exampleProject\<lparr>tasks := [taskA], progress := 1, updatedAt := ''t3''\<rparr>],
            projectState := (projectState dirtyStore)\<lparr>lastModified := ''t3''\<rparr>\<rparr>) \<and>
   redoStack (projr (undo transition length ''t2'' dirtyStore)) = [addItemA] \<and>
   redoStack (projr (redo transition length ''t3''
                (projr (undo transition length ''t2'' dirtyStore)))) = [] \<and>
   redo transition length ''t4''
      (projr (redo transition length ''t3'' (projr (undo transition length ''t2'' dirtyStore))))
     = Inr (projr (redo transition length ''t3''
                (projr (undo transition length ''t2'' dirtyStore))))"
proof -
  let ?s0 = "updateProject transition length ''t1'' (exampleProject\<lparr>tasks := [taskA]\<rparr>)
               (pushUndo addItemA (exampleStore\<lparr>redoStack := [numberedItem 7]\<rparr>))"
  let ?s1 = "projr (undo transition length ''t2'' dirtyStore)"
  let ?s2 = "projr (redo transition length ''t3'' ?s1)"
  have e: "?s0 = dirtyStore" by (simp add: example_defs store_defs)
  have u: "undo transition length ''t2'' ?s0 = Inr ?s1"
    unfolding e by (simp add: example_defs store_defs)
  have r: "redo transition length ''t3'' ?s1 = Inr ?s2"
    by (simp add: example_defs store_defs)
  have v: "?s2 = dirtyStore\<lparr>currentProject :=
              Some (exampleProject\<lparr>tasks := [taskA], progress := 1, updatedAt := ''t3''\<rparr>),
            projects := [exampleProject\<lparr>tasks := [taskA], progress := 1, updatedAt := ''t3''\<rparr>],
            projectState := (projectState dirtyStore)\<lparr>lastModified := ''t3''\<rparr>\<rparr>"
    by (simp add: example_defs store_defs)
  from pushUndo_clears_redoStack [of addItemA "exampleStore\<lparr>redoStack := [numberedItem 7]\<rparr>"
      transition length "''t1''" "''t2''" "''t1''" "exampleProject\<lparr>tasks := [taskA]\<rparr>"
      "''t3''" "''t4''"] u r
  have "redoStack ?s1 = [addItemA] \<and> redoStack ?s2 = [] \<and>
        redo transition length ''t4'' ?s2 = Inr ?s2"
    by blast
  with u r v show ?thesis by simp
qed

subsection \<open>Creating and saving\<close>

text \<open>
  C7, as amended. \<open>createProject\<close> leaves the state UNTITLED with isUntitled=true and both
  stacks empty. Where it goes through \<open>transition(prev, 'initialize')\<close> (lines 596-613, with
  \<open>transition\<close> as the spec describes it) hasUnsavedChanges is false; where it writes the
  state inline (lines 79-103) hasUnsavedChanges is true.
\<close>

theorem createProject_state:
  "currentState (projectState (createProject transition now newProject s)) = UNTITLED \<and>
   hasUnsavedChanges (projectState (createProject transition now newProject s)) = False \<and>
   isUntitled (projectState (createProject transition now newProject s)) = True \<and>
   undoStack (createProject tr now newProject s) = [] \<and>
   redoStack (createProject tr now newProject s) = [] \<and>
   currentState (projectState (createProject_early now newProject s)) = UNTITLED \<and>
   hasUnsavedChanges (projectState (createProject_early now newProject s)) = True \<and>
   isUntitled (projectState (createProject_early now newProject s)) = True \<and>
   undoStack (createProject_early now newProject s) = [] \<and>
   redoStack (createProject_early now newProject s) = []"
  by (simp add: createProject_def createProject_early_def)

text \<open>
  C7 as stated fails on lines 79-103: creating a project there sets hasUnsavedChanges to true.
\<close>

theorem createProject_early_unsaved:
  "\<not> (currentState (projectState (createProject_early ''t1'' exampleProject exampleStore))
        = UNTITLED \<and>
      hasUnsavedChanges (projectState (createProject_early ''t1'' exampleProject exampleStore))
        = False \<and>
      isUntitled (projectState (createProject_early ''t1'' exampleProject exampleStore)) = True \<and>
      undoStack (createProject_early ''t1'' exampleProject exampleStore) = [] \<and>
      redoStack (createProject_early ''t1'' exampleProject exampleStore) = [])"
  by (simp add: createProject_early_def)

text \<open>
  C6. With an active project, \<open>saveProject\<close> replaces the state by the 'save' transition of
  the previous one and empties both stacks. With \<open>transition\<close> as the spec describes it the
  state is SAVED with hasUnsavedChanges=false; the earlier revision (lines 278-319) writes
  exactly that inline.
\<close>

theorem saveProject_resets:
  "currentProject s = Some cp \<Longrightarrow>
     projectState (saveProject tr now s) = tr (projectState s) EvSave now \<and>
     undoStack (saveProject tr now s) = [] \<and> redoStack (saveProject tr now s) = [] \<and>
     currentState (projectState (saveProject transition now s)) = SAVED \<and>
     hasUnsavedChanges (projectState (saveProject transition now s)) = False \<and>
     currentState (projectState (saveProject_early now s)) = SAVED \<and>
     hasUnsavedChanges (projectState (saveProject_early now s)) = False \<and>
     undoStack (saveProject_early now s) = [] \<and> redoStack (saveProject_early now s) = []"
  by (simp add: saveProject_def saveProject_early_def)

theorem saveProject_resets_witness:
  "currentProject dirtyStore
     = Some (exampleProject\<lparr>tasks := [taskA], progress := 1, updatedAt := ''t1''\<rparr>) \<and>
   currentState (projectState dirtyStore) = DIRTY \<and>
   undoStack dirtyStore = [addItemA] \<and>
   currentState (projectState (saveProject transition ''t2'' dirtyStore)) = SAVED \<and>
   hasUnsavedChanges (projectState (saveProject transition ''t2'' dirtyStore)) = False \<and>
   undoStack (saveProject transition ''t2'' dirtyStore) = [] \<and>
   redoStack (saveProject transition ''t2'' dirtyStore) = [] \<and>
   currentState (projectState (saveProject_early ''t2'' dirtyStore)) = SAVED \<and>
   hasUnsavedChanges (projectState (saveProject_early ''t2'' dirtyStore)) = False"
proof -
  have h: "currentProject dirtyStore
             = Some (exampleProject\<lparr>tasks := [taskA], progress := 1, updatedAt := ''t1''\<rparr>)"
    by (simp add: dirtyStore_def addTask_def exampleStore_def exampleProject_def)
  have d: "currentState (projectState dirtyStore) = DIRTY \<and> undoStack dirtyStore = [addItemA]"
    by (simp add: dirtyStore_def addTask_def exampleStore_def addItemA_def taskA_def)
  from h d saveProject_resets [OF h, of transition "''t2''"] show ?thesis by simp
qed

subsection \<open>Restoring a snapshot that is not there\<close>

text \<open>
  C8. When the Persistence Backend has no package under the name, \<open>restoreSnapshot\<close> returns
  the store as it was: \<open>currentProject\<close>, \<open>projects\<close>, \<open>projectState\<close> and everything else.
\<close>

theorem restoreSnapshot_missing:
  "loadSnapshot name = None \<Longrightarrow> restoreSnapshot tr now loadSnapshot name s = s"
  by (simp add: restoreSnapshot_def)

theorem restoreSnapshot_missing_witness:
  "Map.empty ''missing'' = (None :: ProjectPackage option) \<and>
   restoreSnapshot transition ''t1'' Map.empty ''missing'' dirtyStore = dirtyStore"
  using restoreSnapshot_missing [of Map.empty "''missing''" transition "''t1''" dirtyStore]
  by simp

subsection \<open>Autosave\<close>

text \<open>
  C9. A firing of the autosave timer changes nothing in the store's state: not
  \<open>projectState\<close> (so never SAVED, never a cleared hasUnsavedChanges), not the stacks, not the
  projects. It passes a package to \<open>saveAutoSnapshot\<close> exactly when hasUnsavedChanges is true
  (the timer being active and a project loaded), and otherwise writes nothing.
\<close>

theorem autosaveTick_silent:
  "projectState (autosaveTick now s) = projectState s \<and>
   undoStack (autosaveTick now s) = undoStack s \<and>
   redoStack (autosaveTick now s) = redoStack s \<and>
   projects (autosaveTick now s) = projects s \<and>
   currentProject (autosaveTick now s) = currentProject s \<and>
   recentUpdates (autosaveTick now s) = recentUpdates s \<and>
   savedSnapshots (autosaveTick now s) =
     (if hasUnsavedChanges (projectState s) \<and> autosaveTimer (projectState s) = TimerActive
      then (case currentProject s of
              None \<Rightarrow> savedSnapshots s
            | Some cp \<Rightarrow> savedSnapshots s @ [snapshotPackage cp now])
      else savedSnapshots s)"
  by (simp add: autosaveTick_def split: option.splits)

subsection \<open>Undo followed by redo\<close>

lemma mset_filter_split:
  "mset (filter (\<lambda>x. f x \<noteq> i) xs) + mset (filter (\<lambda>x. f x = i) xs) = mset xs"
  by (induction xs) auto

lemma mset_eq_one_iff: "mset xs = mset ys \<Longrightarrow> xs = [t] \<longleftrightarrow> ys = [t]"
  by (metis mset.simps(2) mset_single_iff_right)

lemma mset_eq_nil_iff: "mset xs = mset ys \<Longrightarrow> xs = [] \<longleftrightarrow> ys = []"
  by (metis mset_zero_iff)

lemma fitsTasks_add:
  "utype a = add_task \<Longrightarrow> fitsTasks a xs \<longleftrightarrow>
     (\<exists>t. afterState a = Some (TaskState t) \<and> task_id t = targetId a \<and>
          filter (\<lambda>x. task_id x = targetId a) xs = [t])"
  by (cases "afterState a") (auto simp: fitsTasks_def split: Snapshot.splits)

lemma fitsTasks_update:
  "utype a = update_task \<Longrightarrow> fitsTasks a xs \<longleftrightarrow>
     (\<exists>b t. beforeState a = Some (TaskState b) \<and> afterState a = Some (TaskState t) \<and>
          task_id b = targetId a \<and> task_id t = targetId a \<and>
          list_all (\<lambda>x. x = t) (filter (\<lambda>x. task_id x = targetId a) xs))"
  by (cases "beforeState a"; cases "afterState a")
     (auto simp: fitsTasks_def split: Snapshot.splits)

lemma fitsTasks_delete:
  "utype a = delete_task \<Longrightarrow> fitsTasks a xs \<longleftrightarrow>
     (\<exists>b. beforeState a = Some (TaskState b) \<and> task_id b = targetId a \<and>
          filter (\<lambda>x. task_id x = targetId a) xs = [])"
  by (cases "beforeState a") (auto simp: fitsTasks_def split: Snapshot.splits)

lemma fitsTasks_other:
  "utype a \<in> {add_resource, update_resource, delete_resource} \<Longrightarrow> fitsTasks a xs"
  "utype a \<in> {add_resource, update_resource, delete_resource} \<Longrightarrow> undoTasks a xs = Inr xs"
  "utype a \<in> {add_resource, update_resource, delete_resource} \<Longrightarrow> redoTasks a xs = Inr xs"
  by (auto simp: fitsTasks_def undoTasks_def redoTasks_def)

text \<open>Undoing an item that fits and redoing it gives back the same entities.\<close>

lemma fitsTasks_roundtrip:
  assumes "fitsTasks a xs" "undoTasks a xs = Inr xs'" "mset ys = mset xs'"
  shows "\<exists>zs. redoTasks a ys = Inr zs \<and> mset zs = mset xs"
proof (cases "utype a")
  case add_task
  with assms(1) obtain t where t: "afterState a = Some (TaskState t)"
    "filter (\<lambda>x. task_id x = targetId a) xs = [t]"
    by (auto simp: fitsTasks_add)
  from add_task assms(2) have xs': "xs' = filter (\<lambda>x. task_id x \<noteq> targetId a) xs"
    by (auto simp: undoTasks_def)
  have "redoTasks a ys = Inr (ys @ [t])"
    using add_task t by (simp add: redoTasks_def appendTask_def)
  moreover have "mset (ys @ [t]) = mset xs"
    using mset_filter_split [of task_id "targetId a" xs] t(2) assms(3) xs' by simp
  ultimately show ?thesis by blast
next
  case update_task
  with assms(1) obtain b t where bt: "beforeState a = Some (TaskState b)"
    "afterState a = Some (TaskState t)" "task_id b = targetId a"
    "list_all (\<lambda>x. x = t) (filter (\<lambda>x. task_id x = targetId a) xs)"
    by (auto simp: fitsTasks_update)
  from update_task assms(2) bt
  have xs': "xs' = map (\<lambda>x. if task_id x = targetId a then b else x) xs"
    by (auto simp: undoTasks_def replaceTask_def)
  have r: "redoTasks a ys = Inr (map (\<lambda>x. if task_id x = targetId a then t else x) ys)"
    using update_task bt by (simp add: redoTasks_def replaceTask_def)
  have "mset (map (\<lambda>x. if task_id x = targetId a then t else x) ys)
      = image_mset (\<lambda>x. if task_id x = targetId a then t else x) (mset xs')"
    using assms(3) by simp
  also have "\<dots> = mset (map (\<lambda>x. if task_id x = targetId a then t else x) xs')" by simp
  also have "map (\<lambda>x. if task_id x = targetId a then t else x) xs' = xs"
    unfolding xs' using bt(3,4) by (induction xs) auto
  finally show ?thesis using r by blast
next
  case delete_task
  with assms(1) obtain b where b: "beforeState a = Some (TaskState b)"
    "task_id b = targetId a" "filter (\<lambda>x. task_id x = targetId a) xs = []"
    by (auto simp: fitsTasks_delete)
  from delete_task assms(2) b have xs': "xs' = xs @ [b]"
    by (auto simp: undoTasks_def appendTask_def)
  have r: "redoTasks a ys = Inr (filter (\<lambda>x. task_id x \<noteq> targetId a) ys)"
    using delete_task by (simp add: redoTasks_def)
  have "mset (filter (\<lambda>x. task_id x \<noteq> targetId a) ys)
      = mset (filter (\<lambda>x. task_id x \<noteq> targetId a) xs')"
    using assms(3) by simp
  also have "\<dots> = mset (filter (\<lambda>x. task_id x \<noteq> targetId a) xs)"
    using b(2) xs' by simp
  also have "\<dots> = mset xs"
    using mset_filter_split [of task_id "targetId a" xs] b(3) by simp
  finally show ?thesis using r by blast
next
  case add_resource
  then show ?thesis using assms by (auto simp: fitsTasks_other)
next
  case update_resource
  then show ?thesis using assms by (auto simp: fitsTasks_other)
next
  case delete_resource
  then show ?thesis using assms by (auto simp: fitsTasks_other)
qed

text \<open>Fitting and undoing depend on the entities only, not on their order.\<close>

lemma fitsTasks_perm:
  assumes "mset xs = mset ys"
  shows "fitsTasks a xs = fitsTasks a ys"
proof -
  have m: "mset (filter (\<lambda>x. task_id x = targetId a) xs)
         = mset (filter (\<lambda>x. task_id x = targetId a) ys)"
    using assms by simp
  have s: "filter (\<lambda>x. task_id x = targetId a) xs = [t]
       \<longleftrightarrow> filter (\<lambda>x. task_id x = targetId a) ys = [t]" for t
    using mset_eq_one_iff [OF m] by blast
  have e: "filter (\<lambda>x. task_id x = targetId a) xs = []
       \<longleftrightarrow> filter (\<lambda>x. task_id x = targetId a) ys = []"
    using mset_eq_nil_iff [OF m] by blast
  have l: "list_all P (filter (\<lambda>x. task_id x = targetId a) xs)
       \<longleftrightarrow> list_all P (filter (\<lambda>x. task_id x = targetId a) ys)" for P
    using mset_eq_setD [OF m] by (simp add: list_all_iff)
  show ?thesis
  proof (cases "utype a")
    case add_task
    then show ?thesis using s by (simp add: fitsTasks_add)
  next
    case update_task
    then show ?thesis using l by (simp add: fitsTasks_update)
  next
    case delete_task
    then show ?thesis using e by (simp add: fitsTasks_delete)
  qed (simp_all add: fitsTasks_other)
qed

lemma undoTasks_perm:
  assumes "fitsTasks a xs" "mset xs = mset ys" "undoTasks a xs = Inr xs'"
  shows "\<exists>ys'. undoTasks a ys = Inr ys' \<and> mset ys' = mset xs'"
proof (cases "utype a")
  case add_task
  then show ?thesis using assms(2,3) by (auto simp: undoTasks_def)
next
  case update_task
  with assms(1) obtain b where "beforeState a = Some (TaskState b)"
    by (auto simp: fitsTasks_update)
  with update_task show ?thesis using assms(2,3)
    by (auto simp: undoTasks_def replaceTask_def)
next
  case delete_task
  with assms(1) obtain b where "beforeState a = Some (TaskState b)"
    by (auto simp: fitsTasks_delete)
  with delete_task show ?thesis using assms(2,3)
    by (auto simp: undoTasks_def appendTask_def)
next
  case add_resource
  then show ?thesis using assms(2,3) by (auto simp: fitsTasks_other)
next
  case update_resource
  then show ?thesis using assms(2,3) by (auto simp: fitsTasks_other)
next
  case delete_resource
  then show ?thesis using assms(2,3) by (auto simp: fitsTasks_other)
qed

lemma fitsResources_add:
  "utype a = add_resource \<Longrightarrow> fitsResources a xs \<longleftrightarrow>
     (\<exists>t. afterState a = Some (ResourceState t) \<and> resource_id t = targetId a \<and>
          filter (\<lambda>x. resource_id x = targetId a) xs = [t])"
  by (cases "afterState a") (auto simp: fitsResources_def split: Snapshot.splits)

lemma fitsResources_update:
  "utype a = update_resource \<Longrightarrow> fitsResources a xs \<longleftrightarrow>
     (\<exists>b t. beforeState a = Some (ResourceState b) \<and> afterState a = Some (ResourceState t) \<and>
          resource_id b = targetId a \<and> resource_id t = targetId a \<and>
          list_all (\<lambda>x. x = t) (filter (\<lambda>x. resource_id x = targetId a) xs))"
  by (cases "beforeState a"; cases "afterState a")
     (auto simp: fitsResources_def split: Snapshot.splits)

lemma fitsResources_delete:
  "utype a = delete_resource \<Longrightarrow> fitsResources a xs \<longleftrightarrow>
     (\<exists>b. beforeState a = Some (ResourceState b) \<and> resource_id b = targetId a \<and>
          filter (\<lambda>x. resource_id x = targetId a) xs = [])"
  by (cases "beforeState a") (auto simp: fitsResources_def split: Snapshot.splits)

lemma fitsResources_other:
  "utype a \<in> {add_task, update_task, delete_task} \<Longrightarrow> fitsResources a xs"
  "utype a \<in> {add_task, update_task, delete_task} \<Longrightarrow> undoResources a xs = Inr xs"
  "utype a \<in> {add_task, update_task, delete_task} \<Longrightarrow> redoResources a xs = Inr xs"
  by (auto simp: fitsResources_def undoResources_def redoResources_def)

lemma fitsResources_roundtrip:
  assumes "fitsResources a xs" "undoResources a xs = Inr xs'" "mset ys = mset xs'"
  shows "\<exists>zs. redoResources a ys = Inr zs \<and> mset zs = mset xs"
proof (cases "utype a")
  case add_resource
  with assms(1) obtain t where t: "afterState a = Some (ResourceState t)"
    "filter (\<lambda>x. resource_id x = targetId a) xs = [t]"
    by (auto simp: fitsResources_add)
  from add_resource assms(2) have xs': "xs' = filter (\<lambda>x. resource_id x \<noteq> targetId a) xs"
    by (auto simp: undoResources_def)
  have "redoResources a ys = Inr (ys @ [t])"
    using add_resource t by (simp add: redoResources_def appendResource_def)
  moreover have "mset (ys @ [t]) = mset xs"
    using mset_filter_split [of resource_id "targetId a" xs] t(2) assms(3) xs' by simp
  ultimately show ?thesis by blast
next
  case update_resource
  with assms(1) obtain b t where bt: "beforeState a = Some (ResourceState b)"
    "afterState a = Some (ResourceState t)" "resource_id b = targetId a"
    "list_all (\<lambda>x. x = t) (filter (\<lambda>x. resource_id x = targetId a) xs)"
    by (auto simp: fitsResources_update)
  from update_resource assms(2) bt
  have xs': "xs' = map (\<lambda>x. if resource_id x = targetId a then b else x) xs"
    by (auto simp: undoResources_def replaceResource_def)
  have r: "redoResources a ys = Inr (map (\<lambda>x. if resource_id x = targetId a then t else x) ys)"
    using update_resource bt by (simp add: redoResources_def replaceResource_def)
  have "mset (map (\<lambda>x. if resource_id x = targetId a then t else x) ys)
      = image_mset (\<lambda>x. if resource_id x = targetId a then t else x) (mset xs')"
    using assms(3) by simp
  also have "\<dots> = mset (map (\<lambda>x. if resource_id x = targetId a then t else x) xs')" by simp
  also have "map (\<lambda>x. if resource_id x = targetId a then t else x) xs' = xs"
    unfolding xs' using bt(3,4) by (induction xs) auto
  finally show ?thesis using r by blast
next
  case delete_resource
  with assms(1) obtain b where b: "beforeState a = Some (ResourceState b)"
    "resource_id b = targetId a" "filter (\<lambda>x. resource_id x = targetId a) xs = []"
    by (auto simp: fitsResources_delete)
  from delete_resource assms(2) b have xs': "xs' = xs @ [b]"
    by (auto simp: undoResources_def appendResource_def)
  have r: "redoResources a ys = Inr (filter (\<lambda>x. resource_id x \<noteq> targetId a) ys)"
    using delete_resource by (simp add: redoResources_def)
  have "mset (filter (\<lambda>x. resource_id x \<noteq> targetId a) ys)
      = mset (filter (\<lambda>x. resource_id x \<noteq> targetId a) xs')"
    using assms(3) by simp
  also have "\<dots> = mset (filter (\<lambda>x. resource_id x \<noteq> targetId a) xs)"
    using b(2) xs' by simp
  also have "\<dots> = mset xs"
    using mset_filter_split [of resource_id "targetId a" xs] b(3) by simp
  finally show ?thesis using r by blast
next
  case add_task
  then show ?thesis using assms by (auto simp: fitsResources_other)
next
  case update_task
  then show ?thesis using assms by (auto simp: fitsResources_other)
next
  case delete_task
  then show ?thesis using assms by (auto simp: fitsResources_other)
qed

lemma fitsResources_perm:
  assumes "mset xs = mset ys"
  shows "fitsResources a xs = fitsResources a ys"
proof -
  have m: "mset (filter (\<lambda>x. resource_id x = targetId a) xs)
         = mset (filter (\<lambda>x. resource_id x = targetId a) ys)"
    using assms by simp
  have s: "filter (\<lambda>x. resource_id x = targetId a) xs = [t]
       \<longleftrightarrow> filter (\<lambda>x. resource_id x = targetId a) ys = [t]" for t
    using mset_eq_one_iff [OF m] by blast
  have e: "filter (\<lambda>x. resource_id x = targetId a) xs = []
       \<longleftrightarrow> filter (\<lambda>x. resource_id x = targetId a) ys = []"
    using mset_eq_nil_iff [OF m] by blast
  have l: "list_all P (filter (\<lambda>x. resource_id x = targetId a) xs)
       \<longleftrightarrow> list_all P (filter (\<lambda>x. resource_id x = targetId a) ys)" for P
    using mset_eq_setD [OF m] by (simp add: list_all_iff)
  show ?thesis
  proof (cases "utype a")
    case add_resource
    then show ?thesis using s by (simp add: fitsResources_add)
  next
    case update_resource
    then show ?thesis using l by (simp add: fitsResources_update)
  next
    case delete_resource
    then show ?thesis using e by (simp add: fitsResources_delete)
  qed (simp_all add: fitsResources_other)
qed

lemma undoResources_perm:
  assumes "fitsResources a xs" "mset xs = mset ys" "undoResources a xs = Inr xs'"
  shows "\<exists>ys'. undoResources a ys = Inr ys' \<and> mset ys' = mset xs'"
proof (cases "utype a")
  case add_resource
  then show ?thesis using assms(2,3) by (auto simp: undoResources_def)
next
  case update_resource
  with assms(1) obtain b where "beforeState a = Some (ResourceState b)"
    by (auto simp: fitsResources_update)
  with update_resource show ?thesis using assms(2,3)
    by (auto simp: undoResources_def replaceResource_def)
next
  case delete_resource
  with assms(1) obtain b where "beforeState a = Some (ResourceState b)"
    by (auto simp: fitsResources_delete)
  with delete_resource show ?thesis using assms(2,3)
    by (auto simp: undoResources_def appendResource_def)
next
  case add_task
  then show ?thesis using assms(2,3) by (auto simp: fitsResources_other)
next
  case update_task
  then show ?thesis using assms(2,3) by (auto simp: fitsResources_other)
next
  case delete_task
  then show ?thesis using assms(2,3) by (auto simp: fitsResources_other)
qed

lemma consistent_perm:
  "consistent as xs rs \<Longrightarrow> mset xs = mset ys \<Longrightarrow> mset rs = mset qs \<Longrightarrow> consistent as ys qs"
proof (induction as arbitrary: xs rs ys qs)
  case Nil
  then show ?case by simp
next
  case (Cons a as)
  from Cons.prems(1) obtain xs' rs' where u: "fitsTasks a xs" "fitsResources a rs"
    "undoTasks a xs = Inr xs'" "undoResources a rs = Inr rs'" "consistent as xs' rs'"
    by (auto split: sum.splits)
  from undoTasks_perm [OF u(1) Cons.prems(2) u(3)]
  obtain ys' where ys': "undoTasks a ys = Inr ys'" "mset ys' = mset xs'" by blast
  from undoResources_perm [OF u(2) Cons.prems(3) u(4)]
  obtain qs' where qs': "undoResources a qs = Inr qs'" "mset qs' = mset rs'" by blast
  have "consistent as ys' qs'"
    using Cons.IH [OF u(5)] ys'(2) qs'(2) by simp
  moreover have "fitsTasks a ys" using u(1) fitsTasks_perm [OF Cons.prems(2)] by simp
  moreover have "fitsResources a qs" using u(2) fitsResources_perm [OF Cons.prems(3)] by simp
  ultimately show ?case using ys'(1) qs'(1) by simp
qed

text \<open>Lists with pairwise distinct ids.\<close>

lemma distinct_find_filter:
  "distinct (map f xs) \<Longrightarrow> find (\<lambda>x. f x = i) xs = Some b \<Longrightarrow> filter (\<lambda>x. f x = i) xs = [b]"
proof (induction xs)
  case Nil
  then show ?case by simp
next
  case (Cons x xs)
  show ?case
  proof (cases "f x = i")
    case True
    with Cons.prems have "x = b" "i \<notin> f ` set xs" by auto
    then have "filter (\<lambda>x. f x = i) xs = []" by (auto simp: filter_empty_conv)
    with True \<open>x = b\<close> show ?thesis by simp
  next
    case False
    with Cons show ?thesis by simp
  qed
qed

lemma find_None_filter:
  "find (\<lambda>x. f x = i) xs = None \<Longrightarrow>
     filter (\<lambda>x. f x = i) xs = [] \<and> filter (\<lambda>x. f x \<noteq> i) xs = xs \<and>
     map (\<lambda>x. if f x = i then y else x) xs = xs"
  by (induction xs) (auto split: if_splits)

lemma find_Some_id: "find (\<lambda>x. f x = i) xs = Some b \<Longrightarrow> f b = i"
  by (induction xs) (auto split: if_splits)

lemma filter_single_replace:
  "f y = i \<Longrightarrow> filter (\<lambda>x. f x = i) xs = [b] \<Longrightarrow>
     map (\<lambda>x. if f x = i then b else x) (map (\<lambda>x. if f x = i then y else x) xs) = xs"
proof (induction xs)
  case Nil
  then show ?case by simp
next
  case (Cons x xs)
  show ?case
  proof (cases "f x = i")
    case True
    with Cons.prems(2) have "x = b" "filter (\<lambda>x. f x = i) xs = []" by auto
    then have "\<forall>z\<in>set xs. f z \<noteq> i" by (auto simp: filter_empty_conv)
    then have "map (\<lambda>x. if f x = i then b else x) (map (\<lambda>x. if f x = i then y else x) xs) = xs"
      by (induction xs) auto
    with True \<open>x = b\<close> Cons.prems(1) show ?thesis by simp
  next
    case False
    with Cons show ?thesis by simp
  qed
qed

lemma replace_keeps_ids:
  "f y = i \<Longrightarrow> map f (map (\<lambda>x. if f x = i then y else x) xs) = map f xs"
  by (induction xs) auto

lemma replace_all_new:
  "f y = i \<Longrightarrow> list_all (\<lambda>x. x = y)
     (filter (\<lambda>x. f x = i) (map (\<lambda>x. if f x = i then y else x) xs))"
  by (induction xs) auto

text \<open>Every recorded mutator keeps the history in order, below the cap.\<close>

lemma historyOk_same:
  assumes "historyOk s" "currentProject s = Some cp" "tasks p = tasks cp"
    "resources p = resources cp"
  shows "historyOk (updateProject tr calc now p s)"
  using assms by (simp add: historyOk_def)

lemma historyOk_push:
  assumes "historyOk s" "length (undoStack s) < 50" "currentProject s = Some cp"
    "fitsTasks a taskList" "fitsResources a resourceList"
    "undoTasks a taskList = Inr taskList'" "undoResources a resourceList = Inr resourceList'"
    "mset taskList' = mset (tasks cp)" "mset resourceList' = mset (resources cp)"
    "distinct (map task_id taskList)" "distinct (map resource_id resourceList)"
    "tasks p = taskList" "resources p = resourceList"
  shows "historyOk (updateProject tr calc now p (pushUndo a s))"
proof -
  have "consistent (rev (undoStack s)) (tasks cp) (resources cp)"
    using assms(1,3) by (simp add: historyOk_def)
  then have "consistent (rev (undoStack s)) taskList' resourceList'"
    using consistent_perm assms(8,9) by metis
  then show ?thesis using assms by (simp add: historyOk_def)
qed

lemma addTask_historyOk:
  assumes "historyOk s" "length (undoStack s) < 50" "currentProject s = Some cp"
    "find (\<lambda>x. task_id x = task_id t) (tasks cp) = None"
  shows "historyOk (addTask tr calc now t s)"
proof -
  let ?a = "\<lparr>utype = add_task, targetId = task_id t, beforeState = None,
             afterState = Some (TaskState t)\<rparr>"
  note n = find_None_filter [OF assms(4)]
  have dd: "distinct (map task_id (tasks cp))" "distinct (map resource_id (resources cp))"
    using assms(1,3) by (simp_all add: historyOk_def)
  have f: "fitsTasks ?a (tasks cp @ [t])" using n by (simp add: fitsTasks_add)
  have u: "undoTasks ?a (tasks cp @ [t]) = Inr (tasks cp)" using n by (simp add: undoTasks_def)
  have fr: "fitsResources ?a (resources cp)" by (simp add: fitsResources_other)
  have ur: "undoResources ?a (resources cp) = Inr (resources cp)"
    by (simp add: fitsResources_other)
  have d: "distinct (map task_id (tasks cp @ [t]))"
    using dd(1) assms(4) by (auto simp: find_None_iff)
  have "historyOk (updateProject tr calc now (cp\<lparr>tasks := tasks cp @ [t]\<rparr>) (pushUndo ?a s))"
    by (rule historyOk_push [OF assms(1-3) f fr u ur refl refl d dd(2)]) simp_all
  then show ?thesis using assms(3) by (simp add: addTask_def)
qed

lemma updateTask_historyOk:
  assumes "historyOk s" "length (undoStack s) < 50" "currentProject s = Some cp"
  shows "historyOk (updateTask tr calc now t s)"
proof (cases "find (\<lambda>x. task_id x = task_id t) (tasks cp)")
  case None
  note n = find_None_filter [OF None]
  have "historyOk (updateProject tr calc now
          (cp\<lparr>tasks := map (\<lambda>x. if task_id x = task_id t then t else x) (tasks cp)\<rparr>) s)"
    by (rule historyOk_same [OF assms(1,3)]) (simp_all add: n)
  then show ?thesis using assms(3) None by (simp add: updateTask_def)
next
  case (Some b)
  let ?a = "\<lparr>utype = update_task, targetId = task_id t, beforeState = Some (TaskState b),
             afterState = Some (TaskState t)\<rparr>"
  let ?xs = "map (\<lambda>x. if task_id x = task_id t then t else x) (tasks cp)"
  have dd: "distinct (map task_id (tasks cp))" "distinct (map resource_id (resources cp))"
    using assms(1,3) by (simp_all add: historyOk_def)
  have f: "fitsTasks ?a ?xs"
    using find_Some_id [OF Some] replace_all_new [of task_id t "task_id t" "tasks cp"]
    by (simp add: fitsTasks_update)
  have u: "undoTasks ?a ?xs = Inr (tasks cp)"
    using filter_single_replace [OF _ distinct_find_filter [OF dd(1) Some], of t]
    by (simp add: undoTasks_def replaceTask_def)
  have fr: "fitsResources ?a (resources cp)" by (simp add: fitsResources_other)
  have ur: "undoResources ?a (resources cp) = Inr (resources cp)"
    by (simp add: fitsResources_other)
  have d: "distinct (map task_id ?xs)"
    by (simp only: replace_keeps_ids [OF refl] dd)
  have "historyOk (updateProject tr calc now (cp\<lparr>tasks := ?xs\<rparr>) (pushUndo ?a s))"
    by (rule historyOk_push [OF assms(1-3) f fr u ur refl refl d dd(2)]) simp_all
  then show ?thesis using assms(3) Some by (simp add: updateTask_def)
qed

lemma deleteTask_historyOk:
  assumes "historyOk s" "length (undoStack s) < 50" "currentProject s = Some cp"
  shows "historyOk (deleteTask tr calc now i s)"
proof (cases "find (\<lambda>x. task_id x = i) (tasks cp)")
  case None
  note n = find_None_filter [OF None]
  have "historyOk (updateProject tr calc now
          (cp\<lparr>tasks := filter (\<lambda>x. task_id x \<noteq> i) (tasks cp)\<rparr>) s)"
    by (rule historyOk_same [OF assms(1,3)]) (simp_all add: n)
  then show ?thesis using assms(3) None by (simp add: deleteTask_def)
next
  case (Some b)
  let ?a = "\<lparr>utype = delete_task, targetId = i, beforeState = Some (TaskState b),
             afterState = None\<rparr>"
  let ?xs = "filter (\<lambda>x. task_id x \<noteq> i) (tasks cp)"
  have dd: "distinct (map task_id (tasks cp))" "distinct (map resource_id (resources cp))"
    using assms(1,3) by (simp_all add: historyOk_def)
  have f: "fitsTasks ?a ?xs"
    using find_Some_id [OF Some] by (simp add: fitsTasks_delete filter_empty_conv)
  have u: "undoTasks ?a ?xs = Inr (?xs @ [b])" by (simp add: undoTasks_def appendTask_def)
  have fr: "fitsResources ?a (resources cp)" by (simp add: fitsResources_other)
  have ur: "undoResources ?a (resources cp) = Inr (resources cp)"
    by (simp add: fitsResources_other)
  have m: "mset (?xs @ [b]) = mset (tasks cp)"
    using mset_filter_split [of task_id i "tasks cp"] distinct_find_filter [OF dd(1) Some]
    by simp
  have d: "distinct (map task_id ?xs)" using dd(1) by (simp add: distinct_map_filter)
  have "historyOk (updateProject tr calc now (cp\<lparr>tasks := ?xs\<rparr>) (pushUndo ?a s))"
    by (rule historyOk_push [OF assms(1-3) f fr u ur m refl d dd(2)]) simp_all
  then show ?thesis using assms(3) Some by (simp add: deleteTask_def)
qed

lemma addResource_historyOk:
  assumes "historyOk s" "length (undoStack s) < 50" "currentProject s = Some cp"
    "find (\<lambda>x. resource_id x = resource_id t) (resources cp) = None"
  shows "historyOk (addResource tr calc now t s)"
proof -
  let ?a = "\<lparr>utype = add_resource, targetId = resource_id t, beforeState = None,
             afterState = Some (ResourceState t)\<rparr>"
  note n = find_None_filter [OF assms(4)]
  have dd: "distinct (map resource_id (resources cp))" "distinct (map task_id (tasks cp))"
    using assms(1,3) by (simp_all add: historyOk_def)
  have f: "fitsResources ?a (resources cp @ [t])" using n by (simp add: fitsResources_add)
  have u: "undoResources ?a (resources cp @ [t]) = Inr (resources cp)" using n by (simp add: undoResources_def)
  have fr: "fitsTasks ?a (tasks cp)" by (simp add: fitsTasks_other)
  have ur: "undoTasks ?a (tasks cp) = Inr (tasks cp)"
    by (simp add: fitsTasks_other)
  have d: "distinct (map resource_id (resources cp @ [t]))"
    using dd(1) assms(4) by (auto simp: find_None_iff)
  have "historyOk (updateProject tr calc now (cp\<lparr>resources := resources cp @ [t]\<rparr>) (pushUndo ?a s))"
    by (rule historyOk_push [OF assms(1-3) fr f ur u refl refl dd(2) d]) simp_all
  then show ?thesis using assms(3) by (simp add: addResource_def)
qed

lemma updateResource_historyOk:
  assumes "historyOk s" "length (undoStack s) < 50" "currentProject s = Some cp"
  shows "historyOk (updateResource tr calc now t s)"
proof (cases "find (\<lambda>x. resource_id x = resource_id t) (resources cp)")
  case None
  note n = find_None_filter [OF None]
  have "historyOk (updateProject tr calc now
          (cp\<lparr>resources := map (\<lambda>x. if resource_id x = resource_id t then t else x) (resources cp)\<rparr>) s)"
    by (rule historyOk_same [OF assms(1,3)]) (simp_all add: n)
  then show ?thesis using assms(3) None by (simp add: updateResource_def)
next
  case (Some b)
  let ?a = "\<lparr>utype = update_resource, targetId = resource_id t, beforeState = Some (ResourceState b),
             afterState = Some (ResourceState t)\<rparr>"
  let ?xs = "map (\<lambda>x. if resource_id x = resource_id t then t else x) (resources cp)"
  have dd: "distinct (map resource_id (resources cp))" "distinct (map task_id (tasks cp))"
    using assms(1,3) by (simp_all add: historyOk_def)
  have f: "fitsResources ?a ?xs"
    using find_Some_id [OF Some] replace_all_new [of resource_id t "resource_id t" "resources cp"]
    by (simp add: fitsResources_update)
  have u: "undoResources ?a ?xs = Inr (resources cp)"
    using filter_single_replace [OF _ distinct_find_filter [OF dd(1) Some], of t]
    by (simp add: undoResources_def replaceResource_def)
  have fr: "fitsTasks ?a (tasks cp)" by (simp add: fitsTasks_other)
  have ur: "undoTasks ?a (tasks cp) = Inr (tasks cp)"
    by (simp add: fitsTasks_other)
  have d: "distinct (map resource_id ?xs)"
    by (simp only: replace_keeps_ids [OF refl] dd)
  have "historyOk (updateProject tr calc now (cp\<lparr>resources := ?xs\<rparr>) (pushUndo ?a s))"
    by (rule historyOk_push [OF assms(1-3) fr f ur u refl refl dd(2) d]) simp_all
  then show ?thesis using assms(3) Some by (simp add: updateResource_def)
qed

lemma deleteResource_historyOk:
  assumes "historyOk s" "length (undoStack s) < 50" "currentProject s = Some cp"
  shows "historyOk (deleteResource tr calc now i s)"
proof (cases "find (\<lambda>x. resource_id x = i) (resources cp)")
  case None
  note n = find_None_filter [OF None]
  have "historyOk (updateProject tr calc now
          (cp\<lparr>resources := filter (\<lambda>x. resource_id x \<noteq> i) (resources cp)\<rparr>) s)"
    by (rule historyOk_same [OF assms(1,3)]) (simp_all add: n)
  then show ?thesis using assms(3) None by (simp add: deleteResource_def)
next
  case (Some b)
  let ?a = "\<lparr>utype = delete_resource, targetId = i, beforeState = Some (ResourceState b),
             afterState = None\<rparr>"
  let ?xs = "filter (\<lambda>x. resource_id x \<noteq> i) (resources cp)"
  have dd: "distinct (map resource_id (resources cp))" "distinct (map task_id (tasks cp))"
    using assms(1,3) by (simp_all add: historyOk_def)
  have f: "fitsResources ?a ?xs"
    using find_Some_id [OF Some] by (simp add: fitsResources_delete filter_empty_conv)
  have u: "undoResources ?a ?xs = Inr (?xs @ [b])" by (simp add: undoResources_def appendResource_def)
  have fr: "fitsTasks ?a (tasks cp)" by (simp add: fitsTasks_other)
  have ur: "undoTasks ?a (tasks cp) = Inr (tasks cp)"
    by (simp add: fitsTasks_other)
  have m: "mset (?xs @ [b]) = mset (resources cp)"
    using mset_filter_split [of resource_id i "resources cp"] distinct_find_filter [OF dd(1) Some]
    by simp
  have d: "distinct (map resource_id ?xs)" using dd(1) by (simp add: distinct_map_filter)
  have "historyOk (updateProject tr calc now (cp\<lparr>resources := ?xs\<rparr>) (pushUndo ?a s))"
    by (rule historyOk_push [OF assms(1-3) fr f ur u refl m dd(2) d]) simp_all
  then show ?thesis using assms(3) Some by (simp add: deleteResource_def)
qed

lemma applyOp_historyOk:
  assumes "historyOk s" "length (undoStack s) < 50" "currentProject s = Some cp"
    "opAdmissible op cp"
  shows "historyOk (applyOp tr calc (now, op) s)"
  using assms
  by (cases op)
     (simp_all add: addTask_historyOk updateTask_historyOk deleteTask_historyOk
        addResource_historyOk updateResource_historyOk deleteResource_historyOk)

lemma applyOp_stack_length:
  "length (undoStack (applyOp tr calc (now, op) s)) \<le> Suc (length (undoStack s))"
  by (cases op)
     (auto simp: addTask_def updateTask_def deleteTask_def addResource_def
        updateResource_def deleteResource_def split: option.splits)

lemma run_historyOk:
  "historyOk s \<Longrightarrow> length (undoStack s) + length ops \<le> 50 \<Longrightarrow> run tr calc ops s = Some s' \<Longrightarrow>
     historyOk s'"
proof (induction ops arbitrary: s)
  case Nil
  then show ?case by simp
next
  case (Cons c ops)
  obtain now op where c: "c = (now, op)" by (cases c)
  from Cons.prems(3) obtain cp where cp: "currentProject s = Some cp" "opAdmissible op cp"
    "run tr calc ops (applyOp tr calc (now, op) s) = Some s'"
    by (auto simp: c split: option.splits if_splits)
  have "historyOk (applyOp tr calc (now, op) s)"
    using applyOp_historyOk [OF Cons.prems(1) _ cp(1,2)] Cons.prems(2) by simp
  moreover have "length (undoStack (applyOp tr calc (now, op) s)) + length ops \<le> 50"
    using applyOp_stack_length [of tr calc now op s] Cons.prems(2) by simp
  ultimately show ?case using Cons.IH cp(3) by blast
qed

lemma redoN_snoc:
  "redoN tr calc (nows @ [now]) s =
     (case redoN tr calc nows s of Inl e \<Rightarrow> Inl e | Inr s' \<Rightarrow> redo tr calc now s')"
  by (induction nows arbitrary: s) (auto split: sum.splits)

text \<open>
  On a consistent history, \<open>n\<close> undos succeed, \<open>n\<close> redos after them succeed, and the store
  ends with the stacks it had and the same entities in both collections.
\<close>

lemma consistent_roundtrip:
  assumes "consistent (rev (undoStack s)) (tasks cp) (resources cp)"
    "currentProject s = Some cp" "length us \<le> length (undoStack s)" "length rs = length us"
  shows "\<exists>s1 s2 cp2. undoN tr calc us s = Inr s1 \<and> redoN tr calc rs s1 = Inr s2 \<and>
           currentProject s2 = Some cp2 \<and> mset (tasks cp2) = mset (tasks cp) \<and>
           mset (resources cp2) = mset (resources cp) \<and>
           undoStack s2 = undoStack s \<and> redoStack s2 = redoStack s"
  using assms
proof (induction us arbitrary: s cp rs)
  case Nil
  then show ?case by simp
next
  case (Cons now us)
  let ?a = "last (undoStack s)"
  from Cons.prems(3) have ne: "undoStack s \<noteq> []" by auto
  then have st: "rev (undoStack s) = ?a # rev (butlast (undoStack s))"
    by (metis append_butlast_last_id rev.simps(2) rev_swap)
  from Cons.prems(1) st obtain xs' rs' where c: "fitsTasks ?a (tasks cp)"
    "fitsResources ?a (resources cp)" "undoTasks ?a (tasks cp) = Inr xs'"
    "undoResources ?a (resources cp) = Inr rs'"
    "consistent (rev (butlast (undoStack s))) xs' rs'"
    by (auto split: sum.splits)
  let ?s' = "updateProject tr calc now (cp\<lparr>tasks := xs', resources := rs'\<rparr>)
               (s\<lparr>undoStack := butlast (undoStack s), redoStack := redoStack s @ [?a]\<rparr>)"
  let ?cp' = "cp\<lparr>tasks := xs', resources := rs', progress := calc xs', updatedAt := now\<rparr>"
  have u: "undo tr calc now s = Inr ?s'"
    using undo_char [OF ne Cons.prems(2)] c(3,4) by simp
  have cur: "currentProject ?s' = Some ?cp'" by simp
  from Cons.prems(4) obtain rs0 r where rs: "rs = rs0 @ [r]" "length rs0 = length us"
    by (cases rs rule: rev_cases) auto
  have "\<exists>s1 s2 cp2. undoN tr calc us ?s' = Inr s1 \<and> redoN tr calc rs0 s1 = Inr s2 \<and>
           currentProject s2 = Some cp2 \<and> mset (tasks cp2) = mset (tasks ?cp') \<and>
           mset (resources cp2) = mset (resources ?cp') \<and>
           undoStack s2 = undoStack ?s' \<and> redoStack s2 = redoStack ?s'"
    using Cons.prems(3) c(5) rs(2) by (intro Cons.IH [OF _ cur]) simp_all
  then obtain s1 s2 cp2 where ih: "undoN tr calc us ?s' = Inr s1"
    "redoN tr calc rs0 s1 = Inr s2" "currentProject s2 = Some cp2"
    "mset (tasks cp2) = mset xs'" "mset (resources cp2) = mset rs'"
    "undoStack s2 = butlast (undoStack s)" "redoStack s2 = redoStack s @ [?a]"
    by auto
  from fitsTasks_roundtrip [OF c(1,3) ih(4)]
  obtain zs where zs: "redoTasks ?a (tasks cp2) = Inr zs" "mset zs = mset (tasks cp)" by blast
  from fitsResources_roundtrip [OF c(2,4) ih(5)]
  obtain qs where qs: "redoResources ?a (resources cp2) = Inr qs"
    "mset qs = mset (resources cp)" by blast
  let ?s3 = "updateProject tr calc r (cp2\<lparr>tasks := zs, resources := qs\<rparr>)
               (s2\<lparr>redoStack := butlast (redoStack s2),
                   undoStack := undoStack s2 @ [last (redoStack s2)]\<rparr>)"
  have r: "redo tr calc r s2 = Inr ?s3"
    using redo_char [OF _ ih(3), of tr calc r] ih(7) zs(1) qs(1) by simp
  have "undoN tr calc (now # us) s = Inr s1" using u ih(1) by simp
  moreover have "redoN tr calc rs s1 = Inr ?s3"
    using ih(2) r by (simp add: rs(1) redoN_snoc)
  moreover have "currentProject ?s3
      = Some (cp2\<lparr>tasks := zs, resources := qs, progress := calc zs, updatedAt := r\<rparr>)"
    by simp
  moreover have "undoStack ?s3 = undoStack s" "redoStack ?s3 = redoStack s"
    using ih(6,7) ne by simp_all
  ultimately show ?case using zs(2) qs(2) by auto
qed

text \<open>
  While the cap of the undo stack is not reached, the round trip holds. Start from a store
  with an active project whose task ids and resource ids are pairwise distinct and whose undo
  stack is empty, and run at most 50 add, update and delete calls on tasks or resources, every
  add with an id that its collection does not hold at that moment. Then for every \<open>n\<close> up to
  the depth of the undo stack, \<open>n\<close> undos followed by \<open>n\<close> redos all succeed and leave the
  tasks and the resources with the same entities as before the undos: equal as multisets,
  hence the same ids with the same field values.
\<close>

lemma undo_redo_roundtrip:
  assumes "currentProject s0 = Some p0" "undoStack s0 = []"
    "distinct (map task_id (tasks p0))" "distinct (map resource_id (resources p0))"
    "length ops \<le> 50" "run tr calc ops s0 = Some s"
    "length us \<le> length (undoStack s)" "length rs = length us"
  shows "\<exists>p s1 s2 p2. currentProject s = Some p \<and> undoN tr calc us s = Inr s1 \<and>
           redoN tr calc rs s1 = Inr s2 \<and> currentProject s2 = Some p2 \<and>
           mset (tasks p2) = mset (tasks p) \<and> mset (resources p2) = mset (resources p)"
proof -
  have "historyOk s0" using assms(1-4) by (simp add: historyOk_def)
  then have h: "historyOk s" using run_historyOk [of s0 ops tr calc s] assms(2,5,6) by simp
  then obtain p where p: "currentProject s = Some p"
    "consistent (rev (undoStack s)) (tasks p) (resources p)"
    by (auto simp: historyOk_def split: option.splits)
  from consistent_roundtrip [OF p(2,1) assms(7,8), of tr calc] p(1) show ?thesis by blast
qed

lemma undo_redo_roundtrip_example:
  "currentProject exampleStore = Some exampleProject \<and>
   undoStack exampleStore = [] \<and>
   run transition length exampleOps exampleStore = Some editedStore \<and>
   length (undoStack editedStore) = 5 \<and>
   (\<exists>p s1 s2 p2. currentProject editedStore = Some p \<and>
      undoN transition length [''t6'', ''t7'', ''t8''] editedStore = Inr s1 \<and>
      redoN transition length [''t9'', ''t10'', ''t11''] s1 = Inr s2 \<and>
      currentProject s2 = Some p2 \<and>
      mset (tasks p2) = mset (tasks p) \<and> mset (resources p2) = mset (resources p))"
proof -
  have h1: "currentProject exampleStore = Some exampleProject"
    and h2: "undoStack exampleStore = []"
    by (simp_all add: exampleStore_def)
  have h3: "distinct (map task_id (tasks exampleProject))"
    and h4: "distinct (map resource_id (resources exampleProject))"
    by (simp_all add: exampleProject_def)
  have h5: "length exampleOps \<le> 50" by (simp add: exampleOps_def)
  have h6: "run transition length exampleOps exampleStore = Some editedStore"
    unfolding editedStore_def by (simp add: example_defs store_defs)
  have l: "length (undoStack editedStore) = 5"
    unfolding editedStore_def by (simp add: example_defs store_defs)
  have h7: "length [''t6'', ''t7'', ''t8''] \<le> length (undoStack editedStore)"
    using l by simp
  have h8: "length [''t9'', ''t10'', ''t11''] = length [''t6'', ''t7'', ''t8'']" by simp
  from undo_redo_roundtrip [OF h1 h2 h3 h4 h5 h6 h7 h8] h1 h2 h6 l show ?thesis by simp
qed

text \<open>
  C1. For every sequence of add, update and delete calls, \<open>n\<close> undos followed by \<open>n\<close> redos,
  \<open>n\<close> at most the depth of the undo stack, should give back the tasks and resources there
  were before the undos. Past the cap they do not, with ids that never repeat: the 51 calls
  of \<open>overCapOps\<close> are all admissible and leave 50 items on the undo stack, the first 49 and
  the last, the item of the renaming having been dropped by \<open>pushUndo\<close>. Task 49 carries its new
  name; two undos and two redos succeed, replay the adding of task 49 and not its renaming,
  and task 49 ends with the fields it was added with.
\<close>

theorem undo_past_cap_loses_update:
  "length overCapOps = 51 \<and>
   (case run transition length overCapOps exampleStore of
      None \<Rightarrow> False
    | Some s \<Rightarrow>
        length (undoStack s) = 50 \<and>
        map utype (drop 48 (undoStack s)) = [add_task, add_task] \<and>
        map targetId (drop 48 (undoStack s)) = [[char_of (49::nat)], [char_of (51::nat)]] \<and>
        fieldsOf [char_of (49::nat)] s = Some [(''name'', ''new'')] \<and>
        (case undoN transition length [''u'', ''u''] s of
           Inl e \<Rightarrow> False
         | Inr s1 \<Rightarrow>
             (case redoN transition length [''r'', ''r''] s1 of
                Inl e \<Rightarrow> False
              | Inr s2 \<Rightarrow> fieldsOf [char_of (49::nat)] s2 = Some [])))"
  by code_simp

subsection \<open>Deleting what is not there\<close>




subsection \<open>Progress\<close>

text \<open>
  C5. After \<open>addTask\<close>, \<open>updateTask\<close> and \<open>deleteTask\<close> on an active project, after an \<open>undo\<close>
  or a \<open>redo\<close> that replays an item, and after any direct \<open>updateProject\<close>, whatever progress
  its argument carries, the active project's progress is \<open>calculateProjectProgress\<close> of the
  tasks it then has.
\<close>

theorem progress_recomputed:
  "(currentProject s \<noteq> None \<longrightarrow>
      progressCurrent calc (addTask tr calc now t s) \<and>
      progressCurrent calc (updateTask tr calc now t2 s) \<and>
      progressCurrent calc (deleteTask tr calc now i s)) \<and>
   (\<forall>s'. currentProject s \<noteq> None \<and> undoStack s \<noteq> [] \<and> undo tr calc now s = Inr s' \<longrightarrow>
      progressCurrent calc s') \<and>
   (\<forall>s'. currentProject s \<noteq> None \<and> redoStack s \<noteq> [] \<and> redo tr calc now s = Inr s' \<longrightarrow>
      progressCurrent calc s') \<and>
   progressCurrent calc (updateProject tr calc now p s)"
proof (intro conjI impI allI)
  assume "currentProject s \<noteq> None"
  then obtain cp where cp: "currentProject s = Some cp" by blast
  show "progressCurrent calc (addTask tr calc now t s)"
    "progressCurrent calc (updateTask tr calc now t2 s)"
    "progressCurrent calc (deleteTask tr calc now i s)"
    using cp by (simp_all add: progressCurrent_def addTask_def updateTask_def deleteTask_def)
next
  fix s'
  assume a: "currentProject s \<noteq> None \<and> undoStack s \<noteq> [] \<and> undo tr calc now s = Inr s'"
  then obtain cp where cp: "currentProject s = Some cp" by blast
  from a undo_char [OF _ cp, of tr calc now] show "progressCurrent calc s'"
    by (auto simp: progressCurrent_def split: sum.splits)
next
  fix s'
  assume a: "currentProject s \<noteq> None \<and> redoStack s \<noteq> [] \<and> redo tr calc now s = Inr s'"
  then obtain cp where cp: "currentProject s = Some cp" by blast
  from a redo_char [OF _ cp, of tr calc now] show "progressCurrent calc s'"
    by (auto simp: progressCurrent_def split: sum.splits)
next
  show "progressCurrent calc (updateProject tr calc now p s)"
    by (simp add: progressCurrent_def)
qed

theorem progress_recomputed_witness:
  "currentProject dirtyStore \<noteq> None \<and> undoStack dirtyStore \<noteq> [] \<and>
   undo transition length ''t2'' dirtyStore
     = Inr (projr (undo transition length ''t2'' dirtyStore)) \<and>
   redoStack (projr (undo transition length ''t2'' dirtyStore)) \<noteq> [] \<and>
   redo transition length ''t3'' (projr (undo transition length ''t2'' dirtyStore))
     = Inr (projr (redo transition length ''t3''
              (projr (undo transition length ''t2'' dirtyStore)))) \<and>
   progressCurrent length (addTask transition length ''t2'' taskB dirtyStore) \<and>
   progressCurrent length (updateTask transition length ''t2'' taskA' dirtyStore) \<and>
   progressCurrent length (deleteTask transition length ''t2'' ''a'' dirtyStore) \<and>
   progressCurrent length (projr (undo transition length ''t2'' dirtyStore)) \<and>
   progressCurrent length
     (projr (redo transition length ''t3'' (projr (undo transition length ''t2'' dirtyStore)))) \<and>
   map_option progress (currentProject (addTask transition length ''t2'' taskB dirtyStore))
     = Some 2 \<and>
   map_option progress (currentProject (projr (undo transition length ''t2'' dirtyStore)))
     = Some 0"
proof -
  let ?s1 = "projr (undo transition length ''t2'' dirtyStore)"
  let ?s2 = "projr (redo transition length ''t3'' ?s1)"
  have h: "currentProject dirtyStore \<noteq> None" "undoStack dirtyStore \<noteq> []"
    by (simp_all add: example_defs store_defs)
  have u: "undo transition length ''t2'' dirtyStore = Inr ?s1"
    by (simp add: example_defs store_defs)
  have h1: "currentProject ?s1 \<noteq> None" "redoStack ?s1 \<noteq> []"
    by (simp_all add: example_defs store_defs)
  have r: "redo transition length ''t3'' ?s1 = Inr ?s2"
    by (simp add: example_defs store_defs)
  have v: "map_option progress (currentProject (addTask transition length ''t2'' taskB dirtyStore))
             = Some 2"
    "map_option progress (currentProject ?s1) = Some 0"
    by (simp_all add: example_defs store_defs)
  from progress_recomputed [of dirtyStore length transition "''t2''" taskB taskA' "''a''"] h u
  have a: "progressCurrent length (addTask transition length ''t2'' taskB dirtyStore)"
    "progressCurrent length (updateTask transition length ''t2'' taskA' dirtyStore)"
    "progressCurrent length (deleteTask transition length ''t2'' ''a'' dirtyStore)"
    "progressCurrent length ?s1"
    by blast+
  from progress_recomputed [of ?s1 length transition "''t3''"] h1 r
  have b: "progressCurrent length ?s2" by blast
  from h u h1 r v a b show ?thesis by simp
qed

subsection \<open>Switching and deleting projects\<close>

text \<open>
  C10, as amended. \<open>setCurrentProject\<close> leaves both stacks as they are. \<open>deleteProject\<close>
  leaves them as they are unless it deletes the active project while no other project
  remains: it then calls \<open>createProject\<close>, which empties both. An item recorded against one
  project is replayed against whichever project is active: after \<open>addTask(t)\<close> and a switch
  to project \<open>b\<close>, \<open>undo\<close> removes from \<open>b\<close> every task with the id of \<open>t\<close>.
\<close>

theorem project_switch_keeps_history:
  "undoStack (setCurrentProject b s) = undoStack s \<and>
   redoStack (setCurrentProject b s) = redoStack s \<and>
   undoStack (deleteProject tr now newProject projectId s) =
     (if map_option project_id (currentProject s) = Some projectId \<and>
         filter (\<lambda>p. project_id p \<noteq> projectId) (projects s) = []
      then [] else undoStack s) \<and>
   redoStack (deleteProject tr now newProject projectId s) =
     (if map_option project_id (currentProject s) = Some projectId \<and>
         filter (\<lambda>p. project_id p \<noteq> projectId) (projects s) = []
      then [] else redoStack s) \<and>
   (currentProject s \<noteq> None \<longrightarrow>
      undo tr calc now1 (setCurrentProject b (addTask tr calc now0 t s)) =
        Inr (updateProject tr calc now1
               (b\<lparr>tasks := filter (\<lambda>x. task_id x \<noteq> task_id t) (tasks b)\<rparr>)
               ((setCurrentProject b (addTask tr calc now0 t s))
                  \<lparr>undoStack := take 49 (undoStack s),
                   redoStack := [\<lparr>utype = add_task, targetId = task_id t, beforeState = None,
                                  afterState = Some (TaskState t)\<rparr>]\<rparr>)))"
proof (intro conjI impI)
  show "undoStack (setCurrentProject b s) = undoStack s"
    "redoStack (setCurrentProject b s) = redoStack s"
    by (simp_all add: setCurrentProject_def)
  show "undoStack (deleteProject tr now newProject projectId s) =
     (if map_option project_id (currentProject s) = Some projectId \<and>
         filter (\<lambda>p. project_id p \<noteq> projectId) (projects s) = []
      then [] else undoStack s)"
    by (auto simp: deleteProject_def createProject_def Let_def)
  show "redoStack (deleteProject tr now newProject projectId s) =
     (if map_option project_id (currentProject s) = Some projectId \<and>
         filter (\<lambda>p. project_id p \<noteq> projectId) (projects s) = []
      then [] else redoStack s)"
    by (auto simp: deleteProject_def createProject_def Let_def)
next
  assume "currentProject s \<noteq> None"
  then obtain cp where cp: "currentProject s = Some cp" by blast
  show "undo tr calc now1 (setCurrentProject b (addTask tr calc now0 t s)) =
        Inr (updateProject tr calc now1
               (b\<lparr>tasks := filter (\<lambda>x. task_id x \<noteq> task_id t) (tasks b)\<rparr>)
               ((setCurrentProject b (addTask tr calc now0 t s))
                  \<lparr>undoStack := take 49 (undoStack s),
                   redoStack := [\<lparr>utype = add_task, targetId = task_id t, beforeState = None,
                                  afterState = Some (TaskState t)\<rparr>]\<rparr>))"
    using cp by (simp add: undo_def setCurrentProject_def addTask_def Let_def)
qed

theorem project_switch_keeps_history_witness:
  "currentProject exampleStore \<noteq> None \<and>
   undoStack (setCurrentProject otherProject dirtyStore) = [addItemA] \<and>
   undoStack (deleteProject transition ''t2'' otherProject ''p2'' dirtyStore) = [addItemA] \<and>
   undoStack (deleteProject transition ''t2'' otherProject ''p1'' dirtyStore) = [] \<and>
   map_option tasks (currentProject (setCurrentProject otherProject dirtyStore))
     = Some [taskA'] \<and>
   map_option project_id
      (currentProject
         (projr (undo transition length ''t2'' (setCurrentProject otherProject dirtyStore))))
     = Some ''p2'' \<and>
   map_option tasks
      (currentProject
         (projr (undo transition length ''t2'' (setCurrentProject otherProject dirtyStore))))
     = Some []"
proof -
  have h: "currentProject exampleStore \<noteq> None" by (simp add: exampleStore_def)
  have d: "undoStack dirtyStore = [addItemA]" "redoStack dirtyStore = []"
    "map_option project_id (currentProject dirtyStore) = Some ''p1''"
    "filter (\<lambda>p. project_id p \<noteq> ''p1'') (projects dirtyStore) = []"
    "filter (\<lambda>p. project_id p \<noteq> ''p2'') (projects dirtyStore) \<noteq> []"
    by (simp_all add: example_defs store_defs)
  note t1 = project_switch_keeps_history [of otherProject dirtyStore transition "''t2''"
      otherProject "''p2''"]
  note t2 = project_switch_keeps_history [of otherProject dirtyStore transition "''t2''"
      otherProject "''p1''"]
  note t3 = project_switch_keeps_history [of otherProject exampleStore transition "''t2''"
      otherProject "''p1''" length "''t2''" "''t1''" taskA]
  have a: "undoStack (setCurrentProject otherProject dirtyStore) = [addItemA]"
    "undoStack (deleteProject transition ''t2'' otherProject ''p2'' dirtyStore) = [addItemA]"
    using t1 d by simp_all
  have b: "undoStack (deleteProject transition ''t2'' otherProject ''p1'' dirtyStore) = []"
    using t2 d by simp
  have c: "undo transition length ''t2'' (setCurrentProject otherProject dirtyStore) =
        Inr (updateProject transition length ''t2''
               (otherProject\<lparr>tasks := filter (\<lambda>x. task_id x \<noteq> task_id taskA)
                                         (tasks otherProject)\<rparr>)
               ((setCurrentProject otherProject dirtyStore)
                  \<lparr>undoStack := take 49 (undoStack exampleStore),
                   redoStack := [\<lparr>utype = add_task, targetId = task_id taskA,
                                  beforeState = None, afterState = Some (TaskState taskA)\<rparr>]\<rparr>))"
    using t3 h by (simp add: dirtyStore_def)
  have e: "map_option tasks (currentProject (setCurrentProject otherProject dirtyStore))
             = Some [taskA']"
    by (simp add: setCurrentProject_def otherProject_def)
  show ?thesis unfolding c using h a b e
    by (simp add: otherProject_def taskA_def taskA'_def)
qed

text \<open>
  C10 as stated fails: deleting the only project, the active one, empties the undo stack.
\<close>

theorem deleteProject_last_clears_history:
  "undoStack dirtyStore = [addItemA] \<and>
   undoStack (deleteProject transition ''t2'' otherProject ''p1'' dirtyStore) = [] \<and>
   undoStack (deleteProject transition ''t2'' otherProject ''p1'' dirtyStore)
     \<noteq> undoStack dirtyStore"
  by (simp add: example_defs store_defs deleteProject_def createProject_def)

end
